theory Spec2Isabelle
  imports Complex_Main
begin

section \<open>Tensors and errors\<close>

text \<open>
  The notebook works on 4-dimensional numpy arrays and TensorFlow tensors. A tensor is
  modelled by its shape (the sizes of axes 0 to 3) and its contents as a function of the
  four indices; only indices inside the shape carry meaning. In the layout the notebook
  uses (\<open>use_gpu = True\<close>) axis 0 is the batch, axis 1 the row, axis 2 the column and
  axis 3 the channel. Values are reals: the properties below concern which values are read
  and written, not rounding.
\<close>

record tensor =
  n_batch :: nat
  n_rows :: nat
  n_cols :: nat
  n_chan :: nat
  dat :: "nat \<Rightarrow> nat \<Rightarrow> nat \<Rightarrow> nat \<Rightarrow> real"

text \<open>The exceptions the modelled statements can raise.\<close>

datatype error = IndexError | ValueError | NameError | InvalidArgumentError

definition ebind :: "error + 'a \<Rightarrow> ('a \<Rightarrow> error + 'b) \<Rightarrow> error + 'b" where
  "ebind m f = (case m of Inl e \<Rightarrow> Inl e | Inr v \<Rightarrow> f v)"

definition same_shape :: "tensor \<Rightarrow> tensor \<Rightarrow> bool" where
  "same_shape x y \<longleftrightarrow>
     n_batch x = n_batch y \<and> n_rows x = n_rows y \<and> n_cols x = n_cols y \<and> n_chan x = n_chan y"

text \<open>\<open>np.zeros((b, h, w, c), dtype='float32')\<close>\<close>

definition np_zeros :: "nat \<Rightarrow> nat \<Rightarrow> nat \<Rightarrow> nat \<Rightarrow> tensor" where
  "np_zeros b h w c = \<lparr>n_batch = b, n_rows = h, n_cols = w, n_chan = c, dat = (\<lambda>_ _ _ _. 0)\<rparr>"

text \<open>The contents of a tensor as nested lists, for stating whole results.\<close>

definition to_lists :: "tensor \<Rightarrow> real list list list list" where
  "to_lists t =
     map (\<lambda>b. map (\<lambda>i. map (\<lambda>j. map (\<lambda>c. dat t b i j c) [0..<n_chan t]) [0..<n_cols t])
       [0..<n_rows t]) [0..<n_batch t]"

section \<open>Hyperparameters\<close>

text \<open>The fields of the \<open>hyperparams\<close> dictionary that the modelled code reads.\<close>

record params =
  batch_size :: nat
  hidden_dims :: nat
  recurrent_length :: nat
  out_hidden_dims :: nat
  out_recurrent_length :: nat
  grad_clip :: real
  use_gpu :: bool

definition p :: params where
  "p = \<lparr>batch_size = 100, hidden_dims = 16, recurrent_length = 7, out_hidden_dims = 32,
        out_recurrent_length = 2, grad_clip = 1, use_gpu = True\<rparr>"

section \<open>The computation graph built by \<open>pixelRNN\<close>\<close>

text \<open>
  TensorFlow 1 code builds a graph and evaluates it later in a session. The graph is a
  datatype: \<open>Placeholder\<close> is \<open>tf.placeholder(tf.float32, shape)\<close> (\<open>None\<close> for an
  unknown dimension), \<open>Conv2d x n (kh, kw) t scope\<close> is the call
  \<open>conv2d(x, n, [kh, kw], t, scope=scope)\<close> of \<open>ops.py\<close>, \<open>Relu\<close> is \<open>tf.nn.relu\<close>
  and \<open>Sigmoid\<close> is \<open>tf.nn.sigmoid\<close>.
\<close>

datatype mask_type = A | B

type_synonym shape4 = "nat option \<times> nat option \<times> nat option \<times> nat option"

datatype node =
    Placeholder shape4
  | Conv2d node nat "nat \<times> nat" mask_type string
  | Relu node
  | Sigmoid node

text \<open>\<open>'%d' % idx\<close> for a non-negative index.\<close>

fun show_nat :: "nat \<Rightarrow> string" where
  "show_nat n =
     (if n < 10 then [char_of (48 + n)]
      else show_nat (n div 10) @ [char_of (48 + n mod 10)])"

text \<open>
  The first loop of \<open>pixelRNN\<close>:
  \<^verbatim>\<open>for idx in range(params.recurrent_length):
      scope = 'CONV%d' % idx
      last_hid = conv2d(last_hid, 3, [1, 1], "B", scope=scope)\<close>
\<close>

fun main_convs :: "nat list \<Rightarrow> node \<Rightarrow> node" where
  "main_convs [] last_hid = last_hid"
| "main_convs (idx # idxs) last_hid =
     main_convs idxs (Conv2d last_hid 3 (1, 1) B (''CONV'' @ show_nat idx))"

text \<open>
  The second loop:
  \<^verbatim>\<open>for idx in range(params.out_recurrent_length):
      scope = 'CONV_OUT%d' % idx
      last_hid = tf.nn.relu(conv2d(last_hid, params.out_hidden_dims, [1, 1], "B", scope=scope))\<close>
\<close>

fun out_convs :: "params \<Rightarrow> nat list \<Rightarrow> node \<Rightarrow> node" where
  "out_convs ps [] last_hid = last_hid"
| "out_convs ps (idx # idxs) last_hid =
     out_convs ps idxs
       (Relu (Conv2d last_hid (out_hidden_dims ps) (1, 1) B (''CONV_OUT'' @ show_nat idx)))"

definition input_shape :: "nat \<Rightarrow> nat \<Rightarrow> nat \<Rightarrow> params \<Rightarrow> shape4" where
  "input_shape height width channel ps =
     (if use_gpu ps then (None, Some height, Some width, Some channel)
      else (None, Some channel, Some height, Some width))"

text \<open>\<open>pixelRNN\<close> returns the triple \<open>(inputs, output, conv2d_out_logits)\<close>.\<close>

definition pixelRNN :: "nat \<Rightarrow> nat \<Rightarrow> nat \<Rightarrow> params \<Rightarrow> node \<times> node \<times> node" where
  "pixelRNN height width channel ps =
     (let inputs = Placeholder (input_shape height width channel ps);
          conv_inputs = Conv2d inputs (hidden_dims ps) (7, 7) A ''conv_inputs'';
          last_hid = main_convs [0..<recurrent_length ps] conv_inputs;
          last_hid = out_convs ps [0..<out_recurrent_length ps] last_hid;
          conv2d_out_logits = Conv2d last_hid 1 (1, 1) B ''conv2d_out_logits'';
          output = Sigmoid conv2d_out_logits
      in (inputs, output, conv2d_out_logits))"

section \<open>Masked convolution\<close>

text \<open>
  Modelled from the spec: the Mask Generator of \<open>ops.py\<close>, which is not among the
  sources. Section 4.1 of the specification: a type \<open>A\<close> mask keeps the kernel rows above
  the centre row and, in the centre row, the positions strictly left of the centre; a type
  \<open>B\<close> mask keeps the centre as well. The centre of a kernel side of length \<open>k\<close> is
  \<open>k div 2\<close>. The mask is the same for every input and output channel (one grayscale
  channel group).
\<close>

definition center :: "nat \<Rightarrow> nat" where
  "center k = k div 2"

definition get_mask :: "mask_type \<Rightarrow> nat \<Rightarrow> nat \<Rightarrow> nat \<Rightarrow> nat \<Rightarrow> real" where
  "get_mask t kh kw a b =
     (if a < center kh \<or> (a = center kh \<and> b < center kw) then 1
      else if a = center kh \<and> b = center kw \<and> t = B then 1
      else 0)"

text \<open>The mask as an array of the kernel's shape \<open>kh \<times> kw \<times> in_channels \<times> out_channels\<close>.\<close>

definition mask_tensor :: "mask_type \<Rightarrow> nat \<Rightarrow> nat \<Rightarrow> nat \<Rightarrow> nat \<Rightarrow> real list list list list" where
  "mask_tensor t kh kw cin cout =
     map (\<lambda>a. map (\<lambda>b. replicate cin (replicate cout (get_mask t kh kw a b))) [0..<kw]) [0..<kh]"

text \<open>
  The reference definition of section 8 of the specification, in its words: the type \<open>B\<close>
  mask is 1 at the centre and at all raster-earlier positions and 0 at all raster-later
  positions; the type \<open>A\<close> mask is the type \<open>B\<close> mask with the centre set to 0. The raster
  index of kernel position \<open>(a, b)\<close> is \<open>a * kw + b\<close>.
\<close>

definition raster_index :: "nat \<Rightarrow> nat \<Rightarrow> nat \<Rightarrow> nat" where
  "raster_index kw a b = a * kw + b"

definition mask_ref_B :: "nat \<Rightarrow> nat \<Rightarrow> nat \<Rightarrow> nat \<Rightarrow> real" where
  "mask_ref_B kh kw a b =
     (if raster_index kw a b \<le> raster_index kw (center kh) (center kw) then 1 else 0)"

definition mask_ref :: "mask_type \<Rightarrow> nat \<Rightarrow> nat \<Rightarrow> nat \<Rightarrow> nat \<Rightarrow> real" where
  "mask_ref t kh kw a b =
     (case t of
        B \<Rightarrow> mask_ref_B kh kw a b
      | A \<Rightarrow> (if a = center kh \<and> b = center kw then 0 else mask_ref_B kh kw a b))"

definition mask_ref_tensor :: "mask_type \<Rightarrow> nat \<Rightarrow> nat \<Rightarrow> nat \<Rightarrow> nat \<Rightarrow> real list list list list" where
  "mask_ref_tensor t kh kw cin cout =
     map (\<lambda>a. map (\<lambda>b. replicate cin (replicate cout (mask_ref t kh kw a b))) [0..<kw]) [0..<kh]"

text \<open>
  Modelled from the spec: the Masked Convolution Layer \<open>conv2d\<close> of \<open>ops.py\<close>, which is not
  among the sources. Section 4.2 of the specification: the weights are multiplied
  elementwise by the mask, a stride-1 convolution with ``same'' padding follows (the
  output has the spatial size of the input, positions outside the input read as 0), the
  bias is added, and no activation is applied. A layer's variables are its weights,
  indexed by kernel row, kernel column, input channel and output channel, and its bias,
  indexed by output channel. The kernel is aligned so that \<open>(k - 1) div 2\<close> padded positions
  precede the input; for the odd sides the model uses (7 and 1) that is the centre.
\<close>

record layer_vars =
  weights :: "nat \<Rightarrow> nat \<Rightarrow> nat \<Rightarrow> nat \<Rightarrow> real"
  biases :: "nat \<Rightarrow> real"

definition pad_before :: "nat \<Rightarrow> nat" where
  "pad_before k = (k - 1) div 2"

definition padded :: "tensor \<Rightarrow> nat \<Rightarrow> int \<Rightarrow> int \<Rightarrow> nat \<Rightarrow> real" where
  "padded x b r c ch =
     (if 0 \<le> r \<and> r < int (n_rows x) \<and> 0 \<le> c \<and> c < int (n_cols x)
      then dat x b (nat r) (nat c) ch else 0)"

definition conv2d_apply :: "layer_vars \<Rightarrow> nat \<Rightarrow> nat \<times> nat \<Rightarrow> mask_type \<Rightarrow> tensor \<Rightarrow> tensor" where
  "conv2d_apply v num_outputs ks t x =
     (case ks of (kh, kw) \<Rightarrow>
        \<lparr>n_batch = n_batch x, n_rows = n_rows x, n_cols = n_cols x, n_chan = num_outputs,
         dat = (\<lambda>b i j out.
           biases v out +
           (\<Sum>a\<leftarrow>[0..<kh]. \<Sum>b'\<leftarrow>[0..<kw]. \<Sum>c\<leftarrow>[0..<n_chan x].
              weights v a b' c out * get_mask t kh kw a b' *
              padded x b (int i + int a - int (pad_before kh))
                         (int j + int b' - int (pad_before kw)) c))\<rparr>)"

section \<open>Running the graph in a session\<close>

text \<open>
  A session holds the value of every layer's variables under the layer's scope.
  \<open>run sess key val nd\<close> is \<open>sess.run(nd, {key: val})\<close>: a node that is the key of the feed
  takes the fed value, which must be compatible with the node's static shape (a
  \<open>ValueError\<close> otherwise); a placeholder that is not fed is an error. Nodes are compared
  structurally; the nodes \<open>pixelRNN\<close> builds are pairwise different.
\<close>

type_synonym session = "string \<Rightarrow> layer_vars"

fun static_shape :: "node \<Rightarrow> shape4" where
  "static_shape (Placeholder s) = s"
| "static_shape (Conv2d x n ks t scope) =
     (case static_shape x of (b, h, w, c) \<Rightarrow> (b, h, w, Some n))"
| "static_shape (Relu x) = static_shape x"
| "static_shape (Sigmoid x) = static_shape x"

definition dim_ok :: "nat option \<Rightarrow> nat \<Rightarrow> bool" where
  "dim_ok d n = (case d of None \<Rightarrow> True | Some m \<Rightarrow> m = n)"

definition feed_compatible :: "shape4 \<Rightarrow> tensor \<Rightarrow> bool" where
  "feed_compatible s x =
     (case s of (b, h, w, c) \<Rightarrow>
        dim_ok b (n_batch x) \<and> dim_ok h (n_rows x) \<and> dim_ok w (n_cols x) \<and> dim_ok c (n_chan x))"

definition fed :: "node \<Rightarrow> tensor \<Rightarrow> error + tensor" where
  "fed nd val = (if feed_compatible (static_shape nd) val then Inr val else Inl ValueError)"

definition tmap :: "(real \<Rightarrow> real) \<Rightarrow> tensor \<Rightarrow> tensor" where
  "tmap f x = x\<lparr>dat := (\<lambda>b i j c. f (dat x b i j c))\<rparr>"

definition relu :: "real \<Rightarrow> real" where
  "relu x = max x 0"

definition sigmoid :: "real \<Rightarrow> real" where
  "sigmoid x = 1 / (1 + exp (- x))"

fun run :: "session \<Rightarrow> node \<Rightarrow> tensor \<Rightarrow> node \<Rightarrow> error + tensor" where
  "run sess key val (Placeholder s) =
     (if Placeholder s = key then fed (Placeholder s) val else Inl InvalidArgumentError)"
| "run sess key val (Conv2d x n ks t scope) =
     (if Conv2d x n ks t scope = key then fed (Conv2d x n ks t scope) val
      else ebind (run sess key val x) (\<lambda>v. Inr (conv2d_apply (sess scope) n ks t v)))"
| "run sess key val (Relu x) =
     (if Relu x = key then fed (Relu x) val
      else ebind (run sess key val x) (\<lambda>v. Inr (tmap relu v)))"
| "run sess key val (Sigmoid x) =
     (if Sigmoid x = key then fed (Sigmoid x) val
      else ebind (run sess key val x) (\<lambda>v. Inr (tmap sigmoid v)))"

text \<open>\<^verbatim>\<open>def predict(sess, images, inputs, output):
    return sess.run(output, {inputs: images})\<close>\<close>

definition predict :: "session \<Rightarrow> tensor \<Rightarrow> node \<Rightarrow> node \<Rightarrow> error + tensor" where
  "predict sess images inputs output = run sess inputs images output"

section \<open>Loss and optimisation\<close>

text \<open>
  \<^verbatim>\<open>loss = tf.reduce_mean(tf.nn.sigmoid_cross_entropy_with_logits(
      logits=conv2d_out_logits, labels=inputs, name='loss'))\<close>
  TensorFlow documents \<open>sigmoid_cross_entropy_with_logits\<close>, for logits \<open>x\<close> and labels
  \<open>z\<close>, as computing \<open>max(x, 0) - x * z + log(1 + exp(-abs(x)))\<close>, and it rejects logits and
  labels of different shapes. \<open>reduce_mean\<close> divides the sum of all elements by their
  number.
\<close>

definition sigmoid_cross_entropy_with_logits :: "real \<Rightarrow> real \<Rightarrow> real" where
  "sigmoid_cross_entropy_with_logits x z = max x 0 - x * z + ln (1 + exp (- \<bar>x\<bar>))"

definition tensor_sum :: "tensor \<Rightarrow> real" where
  "tensor_sum t =
     (\<Sum>b\<leftarrow>[0..<n_batch t]. \<Sum>i\<leftarrow>[0..<n_rows t]. \<Sum>j\<leftarrow>[0..<n_cols t]. \<Sum>c\<leftarrow>[0..<n_chan t].
        dat t b i j c)"

definition reduce_mean :: "tensor \<Rightarrow> real" where
  "reduce_mean t = tensor_sum t / real (n_batch t * n_rows t * n_cols t * n_chan t)"

definition loss_of :: "tensor \<Rightarrow> tensor \<Rightarrow> error + real" where
  "loss_of logits labels =
     (if same_shape logits labels
      then Inr (reduce_mean
        (logits\<lparr>dat := (\<lambda>b i j c.
           sigmoid_cross_entropy_with_logits (dat logits b i j c) (dat labels b i j c))\<rparr>))
      else Inl ValueError)"

text \<open>\<open>sess.run(loss, feed_dict={inputs: images})\<close>\<close>

definition run_loss :: "session \<Rightarrow> node \<Rightarrow> node \<Rightarrow> tensor \<Rightarrow> error + real" where
  "run_loss sess inputs conv2d_out_logits images =
     ebind (run sess inputs images conv2d_out_logits) (\<lambda>logits.
     ebind (run sess inputs images inputs) (\<lambda>labels. loss_of logits labels))"

text \<open>
  The binary cross-entropy in the words of the specification: for a label \<open>z\<close> and the
  probability \<open>sigmoid x\<close>, \<open>- z * ln (sigmoid x) - (1 - z) * ln (1 - sigmoid x)\<close>.
\<close>

definition binary_cross_entropy :: "real \<Rightarrow> real \<Rightarrow> real" where
  "binary_cross_entropy x z = - z * ln (sigmoid x) - (1 - z) * ln (1 - sigmoid x)"

text \<open>
  \<^verbatim>\<open>grads_and_vars = optimizer.compute_gradients(loss)
  new_grads_and_vars = \
      [(tf.clip_by_value(gv[0], -p.grad_clip, p.grad_clip), gv[1]) for gv in grads_and_vars]
  optim = optimizer.apply_gradients(new_grads_and_vars)\<close>
  The optimizer is external: the gradients it computes are a parameter (each gradient a
  list of its elements, paired with its variable) and so is what it does when it applies
  them. \<open>tf.clip_by_value(t, lo, hi)\<close> is elementwise \<open>max(min(t, hi), lo)\<close>.
\<close>

definition clip_by_value :: "real list \<Rightarrow> real \<Rightarrow> real \<Rightarrow> real list" where
  "clip_by_value t lo hi = map (\<lambda>v. max (min v hi) lo) t"

definition new_grads_and_vars :: "params \<Rightarrow> (real list \<times> 'v) list \<Rightarrow> (real list \<times> 'v) list" where
  "new_grads_and_vars ps grads_and_vars =
     map (\<lambda>gv. (clip_by_value (fst gv) (- grad_clip ps) (grad_clip ps), snd gv)) grads_and_vars"

definition optim :: "((real list \<times> 'v) list \<Rightarrow> 'op) \<Rightarrow> params \<Rightarrow> (real list \<times> 'v) list \<Rightarrow> 'op" where
  "optim apply_gradients ps grads_and_vars = apply_gradients (new_grads_and_vars ps grads_and_vars)"

section \<open>Image generation\<close>

text \<open>
  \<open>binarize\<close> and \<open>occlude\<close> come from \<open>utils.py\<close>, which is not among the sources, so the
  generation functions take them as parameters. \<open>binarize\<close> may draw random numbers (the
  specification allows a threshold or a Bernoulli draw), so it takes and returns the state
  \<open>'g\<close> of the random generator; \<open>occlude\<close> may fail.

  The statement \<open>samples[:, i, j] = next_sample[:, i, j]\<close> reads the pixel \<open>(i, j)\<close> of every
  batch element and channel of \<open>next_sample\<close> and writes it to the same pixel of \<open>samples\<close>.
  An index outside axis 1 or 2 of either array raises \<open>IndexError\<close>; the right-hand side,
  of shape (batch, channel), is broadcast to the left-hand side's, an axis of length 1
  being repeated, and any other mismatch raises \<open>ValueError\<close>.
\<close>

definition bcast :: "nat \<Rightarrow> nat \<Rightarrow> nat" where
  "bcast n k = (if n = 1 then 0 else k)"

text \<open>The element for batch element \<open>b\<close> and channel \<open>ch\<close> of the broadcast \<open>next_sample[:, i, j]\<close>.\<close>

definition rhs_value :: "tensor \<Rightarrow> nat \<Rightarrow> nat \<Rightarrow> nat \<Rightarrow> nat \<Rightarrow> real" where
  "rhs_value next_sample b i j ch =
     dat next_sample (bcast (n_batch next_sample) b) i j (bcast (n_chan next_sample) ch)"

definition assign_pixel :: "tensor \<Rightarrow> tensor \<Rightarrow> nat \<Rightarrow> nat \<Rightarrow> error + tensor" where
  "assign_pixel samples next_sample i j =
     (if \<not> (i < n_rows next_sample \<and> j < n_cols next_sample) then Inl IndexError
      else if \<not> (i < n_rows samples \<and> j < n_cols samples) then Inl IndexError
      else if \<not> ((n_batch next_sample = n_batch samples \<or> n_batch next_sample = 1) \<and>
                 (n_chan next_sample = n_chan samples \<or> n_chan next_sample = 1))
        then Inl ValueError
      else Inr (samples\<lparr>dat := (\<lambda>b r c ch.
             if r = i \<and> c = j \<and> b < n_batch samples \<and> ch < n_chan samples
             then rhs_value next_sample b i j ch
             else dat samples b r c ch)\<rparr>))"

text \<open>
  The body of both generation loops:
  \<^verbatim>\<open>next_sample = binarize(predict(sess, samples, inputs, output))
  samples[:, i, j] = next_sample[:, i, j]\<close>
  The loop state is the canvas \<open>samples\<close> and the random generator.
\<close>

definition pixel_step ::
  "('g \<Rightarrow> tensor \<Rightarrow> tensor \<times> 'g) \<Rightarrow> session \<Rightarrow> node \<Rightarrow> node \<Rightarrow> tensor \<times> 'g \<Rightarrow> nat \<Rightarrow> nat
     \<Rightarrow> error + tensor \<times> 'g" where
  "pixel_step binarize sess inputs output st i j =
     (case st of (samples, g) \<Rightarrow>
        ebind (predict sess samples inputs output) (\<lambda>probs.
          case binarize g probs of (next_sample, g') \<Rightarrow>
            ebind (assign_pixel samples next_sample i j) (\<lambda>samples'. Inr (samples', g'))))"

text \<open>\<open>for j in range(...)\<close> inside \<open>for i in range(...)\<close>, stopping at the first exception.\<close>

fun inner_loop :: "('s \<Rightarrow> nat \<Rightarrow> nat \<Rightarrow> error + 's) \<Rightarrow> nat \<Rightarrow> nat list \<Rightarrow> 's \<Rightarrow> error + 's" where
  "inner_loop step i [] st = Inr st"
| "inner_loop step i (j # js) st = ebind (step st i j) (inner_loop step i js)"

fun outer_loop :: "('s \<Rightarrow> nat \<Rightarrow> nat \<Rightarrow> error + 's) \<Rightarrow> nat list \<Rightarrow> nat list \<Rightarrow> 's \<Rightarrow> error + 's" where
  "outer_loop step [] js st = Inr st"
| "outer_loop step (i # is) js st = ebind (inner_loop step i js st) (outer_loop step is js)"

text \<open>
  \<^verbatim>\<open>def generate(sess, height, width, inputs, output):
      samples = np.zeros((100, height, width, 1), dtype='float32')
      for i in range(height):
          for j in range(width):
              next_sample = binarize(predict(sess, samples, inputs, output))
              samples[:, i, j] = next_sample[:, i, j]
      return samples\<close>
\<close>

definition generate ::
  "('g \<Rightarrow> tensor \<Rightarrow> tensor \<times> 'g) \<Rightarrow> 'g \<Rightarrow> session \<Rightarrow> nat \<Rightarrow> nat \<Rightarrow> node \<Rightarrow> node
     \<Rightarrow> error + tensor \<times> 'g" where
  "generate binarize g sess height width inputs output =
     (let samples = np_zeros 100 height width 1
      in outer_loop (pixel_step binarize sess inputs output) [0..<height] [0..<width]
           (samples, g))"

text \<open>
  \<^verbatim>\<open>def generate_occlusions(sess, height, width, inputs, output):
      samples = occlude(images, height, width)
      starting_position = [0,height//2]
      for i in range(starting_position[1], height):
          for j in range(starting_position[0], width):
              next_sample = binarize(predict(sess, samples, inputs, output))
              samples[:, i, j] = next_sample[:, i, j]
      return samples\<close>
  \<open>images\<close> is not a parameter and not a local: it is the notebook's global variable of
  that name, which the training loop assigns. Reading it before any assignment raises
  \<open>NameError\<close>.
\<close>

record globals =
  images :: "tensor option"

definition generate_occlusions ::
  "globals \<Rightarrow> (tensor \<Rightarrow> nat \<Rightarrow> nat \<Rightarrow> error + tensor) \<Rightarrow> ('g \<Rightarrow> tensor \<Rightarrow> tensor \<times> 'g) \<Rightarrow> 'g
     \<Rightarrow> session \<Rightarrow> nat \<Rightarrow> nat \<Rightarrow> node \<Rightarrow> node \<Rightarrow> error + tensor \<times> 'g" where
  "generate_occlusions glob occlude binarize g sess height width inputs output =
     (case images glob of
        None \<Rightarrow> Inl NameError
      | Some imgs \<Rightarrow>
          ebind (occlude imgs height width) (\<lambda>samples.
            let starting_position = (0, height div 2)
            in outer_loop (pixel_step binarize sess inputs output)
                 [snd starting_position..<height] [fst starting_position..<width]
                 (samples, g)))"

text \<open>
  Modelled from the spec: \<open>binarize\<close> of \<open>utils.py\<close> under the threshold policy of the
  specification's scenarios, where a probability above 0.5 becomes 1 and a tie at 0.5 is
  resolved to 0. It draws no random numbers.
\<close>

definition binarize_threshold :: "'g \<Rightarrow> tensor \<Rightarrow> tensor \<times> 'g" where
  "binarize_threshold g x = (tmap (\<lambda>v. if v > 1 / 2 then 1 else 0) x, g)"

text \<open>
  The two generation operations in the words of section 4.5 of the specification, for
  comparison with the code: \<open>generate(batch_size, height, width)\<close> starts from a canvas of
  zeros with the given batch and spatial shape, and \<open>generate_occlusions(seed_images,
  height, width)\<close> starts from a copy of its argument \<open>seed_images\<close> and regenerates the rows
  from \<open>height // 2\<close> on.
\<close>

definition generate_spec ::
  "('g \<Rightarrow> tensor \<Rightarrow> tensor \<times> 'g) \<Rightarrow> 'g \<Rightarrow> session \<Rightarrow> node \<Rightarrow> node \<Rightarrow> nat \<Rightarrow> nat \<Rightarrow> nat
     \<Rightarrow> error + tensor \<times> 'g" where
  "generate_spec binarize g sess inputs output batch_size' height width =
     outer_loop (pixel_step binarize sess inputs output) [0..<height] [0..<width]
       (np_zeros batch_size' height width 1, g)"

definition generate_occlusions_spec ::
  "('g \<Rightarrow> tensor \<Rightarrow> tensor \<times> 'g) \<Rightarrow> 'g \<Rightarrow> session \<Rightarrow> node \<Rightarrow> node \<Rightarrow> tensor \<Rightarrow> nat \<Rightarrow> nat
     \<Rightarrow> error + tensor \<times> 'g" where
  "generate_occlusions_spec binarize g sess inputs output seed_images height width =
     outer_loop (pixel_step binarize sess inputs output) [height div 2..<height] [0..<width]
       (seed_images, g)"

text \<open>
  Intermediate states of the two nested loops, for rows \<open>row0 \<le> i\<close> and columns from 0:
  \<open>canvas_before\<close> is the loop state when the iteration at \<open>(i, j)\<close> starts (the rows before
  \<open>i\<close> are done, and the columns before \<open>j\<close> of row \<open>i\<close>), \<open>canvas_after\<close> the state when it
  has finished, and \<open>finish_from\<close> runs the remaining iterations from there.
\<close>

definition canvas_before ::
  "('s \<Rightarrow> nat \<Rightarrow> nat \<Rightarrow> error + 's) \<Rightarrow> nat \<Rightarrow> nat \<Rightarrow> nat \<Rightarrow> nat \<Rightarrow> 's \<Rightarrow> error + 's" where
  "canvas_before step row0 width i j st =
     ebind (outer_loop step [row0..<i] [0..<width] st) (inner_loop step i [0..<j])"

definition canvas_after ::
  "('s \<Rightarrow> nat \<Rightarrow> nat \<Rightarrow> error + 's) \<Rightarrow> nat \<Rightarrow> nat \<Rightarrow> nat \<Rightarrow> nat \<Rightarrow> 's \<Rightarrow> error + 's" where
  "canvas_after step row0 width i j st =
     ebind (outer_loop step [row0..<i] [0..<width] st) (inner_loop step i [0..<Suc j])"

definition finish_from ::
  "('s \<Rightarrow> nat \<Rightarrow> nat \<Rightarrow> error + 's) \<Rightarrow> nat \<Rightarrow> nat \<Rightarrow> nat \<Rightarrow> nat \<Rightarrow> 's \<Rightarrow> error + 's" where
  "finish_from step height width i j st =
     ebind (inner_loop step i [Suc j..<width] st) (outer_loop step [Suc i..<height] [0..<width])"

text \<open>
  The canvas positions in raster order, and the loop state after the pixel steps at a
  list of positions have run.
\<close>

definition raster :: "nat list \<Rightarrow> nat list \<Rightarrow> (nat \<times> nat) list" where
  "raster is js = List.product is js"

fun steps :: "('s \<Rightarrow> nat \<Rightarrow> nat \<Rightarrow> error + 's) \<Rightarrow> (nat \<times> nat) list \<Rightarrow> 's \<Rightarrow> error + 's" where
  "steps step [] st = Inr st"
| "steps step (q # qs) st = ebind (step st (fst q) (snd q)) (steps step qs)"

text \<open>Raster order on positions: \<open>(r, c)\<close> strictly before \<open>(i, j)\<close>.\<close>

definition before :: "nat \<times> nat \<Rightarrow> nat \<times> nat \<Rightarrow> bool" where
  "before q q' \<longleftrightarrow> fst q < fst q' \<or> (fst q = fst q' \<and> snd q < snd q')"

section \<open>The layer sequence of a graph\<close>

text \<open>
  The operations a graph applies to its placeholder, in the order of application, and the
  placeholder it starts from. \<open>pixelcnn_layers\<close> is the architecture in the words of section
  4.3 of the specification, up to the logits.
\<close>

datatype op = ConvOp mask_type "nat \<times> nat" nat | ReluOp | SigmoidOp

fun ops_of :: "node \<Rightarrow> op list" where
  "ops_of (Placeholder s) = []"
| "ops_of (Conv2d x n ks t scope) = ops_of x @ [ConvOp t ks n]"
| "ops_of (Relu x) = ops_of x @ [ReluOp]"
| "ops_of (Sigmoid x) = ops_of x @ [SigmoidOp]"

fun source_of :: "node \<Rightarrow> node" where
  "source_of (Placeholder s) = Placeholder s"
| "source_of (Conv2d x n ks t scope) = source_of x"
| "source_of (Relu x) = source_of x"
| "source_of (Sigmoid x) = source_of x"

definition pixelcnn_layers :: "params \<Rightarrow> op list" where
  "pixelcnn_layers ps =
     [ConvOp A (7, 7) (hidden_dims ps)] @
     replicate (recurrent_length ps) (ConvOp B (1, 1) 3) @
     concat (replicate (out_recurrent_length ps) [ConvOp B (1, 1) (out_hidden_dims ps), ReluOp]) @
     [ConvOp B (1, 1) 1]"

section \<open>Models and inputs for concrete runs\<close>

text \<open>
  A model whose forward pass puts the same probability at every position: on every canvas
  of the given height and width with one channel, the prediction is the constant tensor
  of the canvas's batch size.
\<close>

definition constant_model :: "session \<Rightarrow> node \<Rightarrow> node \<Rightarrow> nat \<Rightarrow> nat \<Rightarrow> real \<Rightarrow> bool" where
  "constant_model sess inputs output height width prob \<longleftrightarrow>
     (\<forall>imgs. n_rows imgs = height \<and> n_cols imgs = width \<and> n_chan imgs = 1 \<longrightarrow>
        predict sess imgs inputs output =
          Inr \<lparr>n_batch = n_batch imgs, n_rows = height, n_cols = width, n_chan = 1,
               dat = (\<lambda>_ _ _ _. prob)\<rparr>)"

text \<open>
  A session in which every variable is 0, except the bias of the logits layer, which is
  \<open>v\<close>: the graph of \<open>pixelRNN\<close> then predicts \<open>sigmoid v\<close> everywhere.
\<close>

definition bias_session :: "real \<Rightarrow> session" where
  "bias_session v scope =
     (if scope = ''conv2d_out_logits''
      then \<lparr>weights = (\<lambda>_ _ _ _. 0), biases = (\<lambda>_. v)\<rparr>
      else \<lparr>weights = (\<lambda>_ _ _ _. 0), biases = (\<lambda>_. 0)\<rparr>)"

text \<open>
  An occlusion to run \<open>generate_occlusions\<close> with: it keeps the rows above \<open>height // 2\<close>
  and blanks the others. What \<open>occlude\<close> of \<open>utils.py\<close> does is not known; the general
  statements below hold for every \<open>occlude\<close>.
\<close>

definition occlude_top_half :: "tensor \<Rightarrow> nat \<Rightarrow> nat \<Rightarrow> error + tensor" where
  "occlude_top_half imgs height width =
     Inr (imgs\<lparr>dat := (\<lambda>b r c ch. if r < height div 2 then dat imgs b r c ch else 0)\<rparr>)"

definition np_ones :: "nat \<Rightarrow> nat \<Rightarrow> nat \<Rightarrow> nat \<Rightarrow> tensor" where
  "np_ones b h w c = \<lparr>n_batch = b, n_rows = h, n_cols = w, n_chan = c, dat = (\<lambda>_ _ _ _. 1)\<rparr>"

text \<open>The shape, and one element, of the tensor a generation call returns.\<close>

definition result_shape :: "error + tensor \<times> 'g \<Rightarrow> error + nat \<times> nat \<times> nat \<times> nat" where
  "result_shape res =
     (case res of
        Inl e \<Rightarrow> Inl e
      | Inr st \<Rightarrow> Inr (n_batch (fst st), n_rows (fst st), n_cols (fst st), n_chan (fst st)))"

definition result_pixel :: "error + tensor \<times> 'g \<Rightarrow> nat \<Rightarrow> nat \<Rightarrow> nat \<Rightarrow> nat \<Rightarrow> error + real" where
  "result_pixel res b i j ch =
     (case res of Inl e \<Rightarrow> Inl e | Inr st \<Rightarrow> Inr (dat (fst st) b i j ch))"

section \<open>Agreement of canvases and of predictions\<close>

text \<open>
  Two canvases agree before \<open>(i, j)\<close> when they have the same shape and the same value at
  every position strictly before \<open>(i, j)\<close> in raster order, for every batch element and
  channel. Two tensors agree at \<open>(b, i, j)\<close> when they have the same shape and the same
  values at that pixel of batch element \<open>b\<close>; two runs agree there when both raise the same
  exception or both return and the results agree. \<open>prediction_at\<close> is the probability a
  prediction gives for pixel \<open>(i, j)\<close> of batch element \<open>b\<close>, or the exception raised.
\<close>

definition agree_before :: "tensor \<Rightarrow> tensor \<Rightarrow> nat \<Rightarrow> nat \<Rightarrow> bool" where
  "agree_before x y i j \<longleftrightarrow>
     same_shape x y \<and>
     (\<forall>b<n_batch x. \<forall>r<n_rows x. \<forall>c<n_cols x. \<forall>ch<n_chan x.
        before (r, c) (i, j) \<longrightarrow> dat x b r c ch = dat y b r c ch)"

definition agree_at :: "tensor \<Rightarrow> tensor \<Rightarrow> nat \<Rightarrow> nat \<Rightarrow> nat \<Rightarrow> bool" where
  "agree_at x y b i j \<longleftrightarrow>
     same_shape x y \<and> (\<forall>ch. dat x b i j ch = dat y b i j ch)"

definition runs_agree_at :: "error + tensor \<Rightarrow> error + tensor \<Rightarrow> nat \<Rightarrow> nat \<Rightarrow> nat \<Rightarrow> bool" where
  "runs_agree_at rx ry b i j =
     (case rx of
        Inl e \<Rightarrow> (case ry of Inl e' \<Rightarrow> e = e' | Inr ty \<Rightarrow> False)
      | Inr tx \<Rightarrow> (case ry of Inl e' \<Rightarrow> False | Inr ty \<Rightarrow> agree_at tx ty b i j))"

definition prediction_at :: "error + tensor \<Rightarrow> nat \<Rightarrow> nat \<Rightarrow> nat \<Rightarrow> error + real" where
  "prediction_at res b i j = (case res of Inl e \<Rightarrow> Inl e | Inr t \<Rightarrow> Inr (dat t b i j 0))"

text \<open>
  A session with every weight 1 and every bias 0, and a canvas that is 0 strictly before
  \<open>(i, j)\<close> and 1 from \<open>(i, j)\<close> on.
\<close>

definition unit_session :: session where
  "unit_session scope = \<lparr>weights = (\<lambda>_ _ _ _. 1), biases = (\<lambda>_. 0)\<rparr>"

definition later_ones :: "nat \<Rightarrow> nat \<Rightarrow> nat \<Rightarrow> nat \<Rightarrow> nat \<Rightarrow> tensor" where
  "later_ones n h w i j =
     \<lparr>n_batch = n, n_rows = h, n_cols = w, n_chan = 1,
      dat = (\<lambda>b r c ch. if before (r, c) (i, j) then 0 else 1)\<rparr>"

text \<open>
  The loss in the words of section 4.4 of the specification: the binary cross-entropy of
  every element, averaged over all batch elements, pixels and channels.
\<close>

definition mean_binary_cross_entropy :: "tensor \<Rightarrow> tensor \<Rightarrow> real" where
  "mean_binary_cross_entropy logits labels =
     (\<Sum>b\<leftarrow>[0..<n_batch logits]. \<Sum>i\<leftarrow>[0..<n_rows logits]. \<Sum>j\<leftarrow>[0..<n_cols logits].
        \<Sum>c\<leftarrow>[0..<n_chan logits].
          binary_cross_entropy (dat logits b i j c) (dat labels b i j c)) /
     real (n_batch logits * n_rows logits * n_cols logits * n_chan logits)"

section \<open>The architecture of the model\<close>

lemma ops_of_main_convs:
  "ops_of (main_convs idxs x) = ops_of x @ replicate (length idxs) (ConvOp B (1, 1) 3)"
  by (induction idxs arbitrary: x) (simp_all add: replicate_append_same)

lemma ops_of_out_convs:
  "ops_of (out_convs ps idxs x) =
     ops_of x @ concat (replicate (length idxs) [ConvOp B (1, 1) (out_hidden_dims ps), ReluOp])"
proof (induction idxs arbitrary: x)
  case Nil
  then show ?case by simp
next
  case (Cons idx idxs)
  have "concat (replicate (Suc (length idxs)) [ConvOp B (1, 1) (out_hidden_dims ps), ReluOp]) =
        [ConvOp B (1, 1) (out_hidden_dims ps), ReluOp] @
        concat (replicate (length idxs) [ConvOp B (1, 1) (out_hidden_dims ps), ReluOp])"
    by simp
  with Cons show ?case by simp
qed

lemma source_of_main_convs: "source_of (main_convs idxs x) = source_of x"
  by (induction idxs arbitrary: x) simp_all

lemma source_of_out_convs: "source_of (out_convs ps idxs x) = source_of x"
  by (induction idxs arbitrary: x) simp_all

text \<open>
  C4. The graph \<open>pixelRNN\<close> builds starts from its placeholder and applies, in this order,
  one \<open>A\<close>-masked 7\<times>7 convolution with \<open>hidden_dims\<close> output channels,
  \<open>recurrent_length\<close> \<open>B\<close>-masked 1\<times>1 convolutions with 3 output channels and nothing
  between them, \<open>out_recurrent_length\<close> \<open>B\<close>-masked 1\<times>1 convolutions with
  \<open>out_hidden_dims\<close> output channels each followed by a ReLU, and one \<open>B\<close>-masked 1\<times>1
  convolution with 1 output channel, the logits; the returned output is the sigmoid of
  the logits, so a prediction is the elementwise sigmoid of the logits' value.
\<close>

theorem pixelRNN_architecture:
  "(case pixelRNN height width channel ps of (inputs, output, conv2d_out_logits) \<Rightarrow>
      source_of conv2d_out_logits = inputs \<and>
      ops_of conv2d_out_logits = pixelcnn_layers ps \<and>
      output = Sigmoid conv2d_out_logits \<and>
      predict sess x inputs output =
        ebind (predict sess x inputs conv2d_out_logits) (\<lambda>logits. Inr (tmap sigmoid logits)))"
  by (simp add: pixelRNN_def Let_def pixelcnn_layers_def ops_of_main_convs ops_of_out_convs
      source_of_main_convs source_of_out_convs predict_def)

text \<open>The theorem at the notebook's hyperparameters: 1 + 7 + 2 * 2 + 1 operations.\<close>

theorem pixelRNN_architecture_witness:
  "ops_of (snd (snd (pixelRNN 28 28 1 p))) =
     [ConvOp A (7, 7) 16,
      ConvOp B (1, 1) 3, ConvOp B (1, 1) 3, ConvOp B (1, 1) 3, ConvOp B (1, 1) 3,
      ConvOp B (1, 1) 3, ConvOp B (1, 1) 3, ConvOp B (1, 1) 3,
      ConvOp B (1, 1) 32, ReluOp, ConvOp B (1, 1) 32, ReluOp,
      ConvOp B (1, 1) 1] \<and>
   fst (snd (pixelRNN 28 28 1 p)) = Sigmoid (snd (snd (pixelRNN 28 28 1 p)))"
  using pixelRNN_architecture [where height = 28 and width = 28 and channel = 1 and ps = p]
  by (simp add: split_beta pixelcnn_layers_def p_def eval_nat_numeral)

section \<open>The mask generator against its reference\<close>

lemma get_mask_ref:
  assumes "a < kh" "b < kw"
  shows "get_mask t kh kw a b = mask_ref t kh kw a b"
proof -
  have cw: "center kw < kw" using assms(2) by (simp add: center_def)
  have lt: "a * kw + b < center kh * kw + center kw" if "a < center kh"
  proof -
    from that have "Suc a * kw \<le> center kh * kw" by (intro mult_le_mono1) simp
    then show ?thesis using assms(2) by simp
  qed
  have gt: "center kh * kw + center kw < a * kw + b" if "center kh < a"
  proof -
    from that have "Suc (center kh) * kw \<le> a * kw" by (intro mult_le_mono1) simp
    then show ?thesis using cw by simp
  qed
  consider "a < center kh" | "a = center kh" | "center kh < a" by linarith
  then show ?thesis
  proof cases
    case 1
    then show ?thesis using lt
      by (cases t) (auto simp: get_mask_def mask_ref_def mask_ref_B_def raster_index_def)
  next
    case 2
    then show ?thesis
      by (cases t) (auto simp: get_mask_def mask_ref_def mask_ref_B_def raster_index_def)
  next
    case 3
    then show ?thesis using gt
      by (cases t) (auto simp: get_mask_def mask_ref_def mask_ref_B_def raster_index_def)
  qed
qed

text \<open>
  C3. For every kernel size and channel counts the generated mask is the reference mask:
  for type \<open>B\<close>, 1 at the centre and at the raster-earlier positions and 0 at the
  raster-later ones; for type \<open>A\<close>, the same with the centre set to 0. A 1\<times>1 mask of type
  \<open>B\<close> is all ones.
\<close>

theorem mask_generator_matches_reference:
  "mask_tensor t kh kw cin cout = mask_ref_tensor t kh kw cin cout \<and>
   mask_tensor B 1 1 cin cout = [[replicate cin (replicate cout 1)]]"
proof
  show "mask_tensor t kh kw cin cout = mask_ref_tensor t kh kw cin cout"
    by (simp add: mask_tensor_def mask_ref_tensor_def get_mask_ref)
  show "mask_tensor B 1 1 cin cout = [[replicate cin (replicate cout 1)]]"
    by (simp add: mask_tensor_def get_mask_def center_def)
qed

text \<open>The theorem at the 3\<times>3 kernels, one input and one output channel.\<close>

theorem mask_generator_matches_reference_witness:
  "mask_tensor A 3 3 1 1 = [[[[1]], [[1]], [[1]]], [[[1]], [[0]], [[0]]], [[[0]], [[0]], [[0]]]] \<and>
   mask_tensor B 3 3 1 1 = [[[[1]], [[1]], [[1]]], [[[1]], [[1]], [[0]]], [[[0]], [[0]], [[0]]]]"
  using mask_generator_matches_reference [where t = A and kh = 3 and kw = 3 and cin = 1 and cout = 1]
    mask_generator_matches_reference [where t = B and kh = 3 and kw = 3 and cin = 1 and cout = 1]
  by (simp add: mask_ref_tensor_def mask_ref_def mask_ref_B_def raster_index_def center_def
      upt_rec [of _ 3] upt_rec [of _ 2] upt_rec [of _ 1])

section \<open>The generation loops step by step\<close>

lemma ebind_Inr [simp]: "ebind (Inr v) f = f v"
  by (simp add: ebind_def)

lemma ebind_Inl [simp]: "ebind (Inl e) f = Inl e"
  by (simp add: ebind_def)

lemma ebind_eq_Inr: "ebind m f = Inr r \<longleftrightarrow> (\<exists>v. m = Inr v \<and> f v = Inr r)"
  by (cases m) simp_all

lemma ebind_assoc: "ebind (ebind m f) h = ebind m (\<lambda>v. ebind (f v) h)"
  by (cases m) simp_all

lemma steps_append: "steps step (xs @ ys) st = ebind (steps step xs st) (steps step ys)"
proof (induction xs arbitrary: st)
  case Nil
  show ?case by simp
next
  case (Cons q qs)
  show ?case
    by (cases "step st (fst q) (snd q)") (simp_all add: Cons.IH)
qed

lemma inner_loop_steps_at: "inner_loop step i js st = steps step (map (Pair i) js) st"
proof (induction js arbitrary: st)
  case Nil
  show ?case by simp
next
  case (Cons j js)
  show ?case by (cases "step st i j") (simp_all add: Cons.IH)
qed

lemma inner_loop_steps: "inner_loop step i js = steps step (map (Pair i) js)"
  by (rule ext) (rule inner_loop_steps_at)

lemma outer_loop_steps: "outer_loop step is js = steps step (raster is js)"
proof (induction "is")
  case Nil
  show ?case by (rule ext) (simp add: raster_def)
next
  case (Cons i "is")
  show ?case
    by (rule ext) (simp add: Cons.IH inner_loop_steps raster_def steps_append)
qed

lemma raster_append: "raster (xs @ ys) js = raster xs js @ raster ys js"
  by (induction xs) (simp_all add: raster_def)

lemma raster_single: "raster [x] js = map (Pair x) js"
  by (simp add: raster_def)

lemma set_raster: "set (raster is js) = set is \<times> set js"
  by (simp add: raster_def)

lemma canvas_before_steps:
  "canvas_before step row0 width i j =
     steps step (raster [row0..<i] [0..<width] @ map (Pair i) [0..<j])"
  by (rule ext) (simp add: canvas_before_def outer_loop_steps inner_loop_steps steps_append)

lemma canvas_after_steps:
  "canvas_after step row0 width i j =
     steps step (raster [row0..<i] [0..<width] @ map (Pair i) [0..<Suc j])"
  by (rule ext) (simp add: canvas_after_def outer_loop_steps inner_loop_steps steps_append del: upt_Suc)

lemma finish_from_steps:
  "finish_from step height width i j =
     steps step (map (Pair i) [Suc j..<width] @ raster [Suc i..<height] [0..<width])"
  by (rule ext) (simp add: finish_from_def outer_loop_steps inner_loop_steps steps_append)

lemma loop_split:
  assumes "row0 \<le> i" "i < height" "j < width"
  shows "outer_loop step [row0..<height] [0..<width] st =
         ebind (canvas_after step row0 width i j st) (finish_from step height width i j)"
proof -
  have rows: "[row0..<height] = [row0..<i] @ [i] @ [Suc i..<height]"
    using assms(1,2) by (metis append_Cons append_Nil le_Suc_ex less_imp_le_nat upt_add_eq_append upt_conv_Cons)
  have cols: "[0..<width] = [0..<Suc j] @ [Suc j..<width]"
    using assms(3) by (metis Suc_leI le_add_diff_inverse upt_add_eq_append zero_le)
  have r1: "raster [row0..<height] [0..<width] =
        raster [row0..<i] [0..<width] @ map (Pair i) [0..<width] @
        raster [Suc i..<height] [0..<width]"
    by (subst rows) (simp only: raster_append raster_single)
  have r2: "map (Pair i) [0..<width] = map (Pair i) [0..<Suc j] @ map (Pair i) [Suc j..<width]"
    by (subst cols) (simp only: map_append)
  have "raster [row0..<height] [0..<width] =
        (raster [row0..<i] [0..<width] @ map (Pair i) [0..<Suc j]) @
        (map (Pair i) [Suc j..<width] @ raster [Suc i..<height] [0..<width])"
    by (simp only: r1 r2 append_assoc)
  then show ?thesis
    by (simp only: outer_loop_steps canvas_after_steps finish_from_steps steps_append)
qed

lemma assign_pixel_Inr:
  assumes "assign_pixel s nxt i j = Inr s'"
  shows "same_shape s' s"
    and "i < n_rows s" and "j < n_cols s"
    and "\<And>b r c ch. (r, c) \<noteq> (i, j) \<Longrightarrow> dat s' b r c ch = dat s b r c ch"
    and "\<And>b ch. b < n_batch s \<Longrightarrow> ch < n_chan s \<Longrightarrow> dat s' b i j ch = rhs_value nxt b i j ch"
  using assms by (auto simp: assign_pixel_def same_shape_def split: if_splits)

lemma pixel_step_Inr:
  assumes "pixel_step bz sess inp out (s, g) i j = Inr (s', g')"
  obtains probs where "predict sess s inp out = Inr probs"
    and "g' = snd (bz g probs)"
    and "assign_pixel s (fst (bz g probs)) i j = Inr s'"
proof -
  from assms obtain probs where p: "predict sess s inp out = Inr probs"
    and r: "(case bz g probs of (next_sample, g') \<Rightarrow>
              ebind (assign_pixel s next_sample i j) (\<lambda>samples'. Inr (samples', g'))) = Inr (s', g')"
    by (auto simp: pixel_step_def ebind_eq_Inr)
  from r have "assign_pixel s (fst (bz g probs)) i j = Inr s'" "g' = snd (bz g probs)"
    by (auto simp: split_beta ebind_eq_Inr)
  with p that show thesis by blast
qed

lemma pixel_step_frame:
  assumes "pixel_step bz sess inp out st i j = Inr st'"
  shows "same_shape (fst st') (fst st)"
    and "\<And>b r c ch. (r, c) \<noteq> (i, j) \<Longrightarrow> dat (fst st') b r c ch = dat (fst st) b r c ch"
proof -
  obtain s g s' g' where st: "st = (s, g)" "st' = (s', g')"
    by (cases st, cases st') 
  from assms obtain probs where a: "assign_pixel s (fst (bz g probs)) i j = Inr s'"
    unfolding st by (rule pixel_step_Inr)
  show "same_shape (fst st') (fst st)"
    using assign_pixel_Inr(1) [OF a] by (simp add: st)
  show "\<And>b r c ch. (r, c) \<noteq> (i, j) \<Longrightarrow> dat (fst st') b r c ch = dat (fst st) b r c ch"
    using assign_pixel_Inr(4) [OF a] by (simp add: st)
qed

lemma same_shape_trans: "same_shape x y \<Longrightarrow> same_shape y z \<Longrightarrow> same_shape x z"
  by (simp add: same_shape_def)

lemma same_shape_refl: "same_shape x x"
  by (simp add: same_shape_def)

lemma steps_frame:
  assumes "steps (pixel_step bz sess inp out) qs st = Inr st'"
  shows "same_shape (fst st') (fst st) \<and>
         (\<forall>b r c ch. (r, c) \<notin> set qs \<longrightarrow> dat (fst st') b r c ch = dat (fst st) b r c ch)"
  using assms
proof (induction qs arbitrary: st)
  case Nil
  then show ?case by (simp add: same_shape_refl)
next
  case (Cons q qs)
  from Cons.prems obtain st1 where
    one: "pixel_step bz sess inp out st (fst q) (snd q) = Inr st1" and
    rest: "steps (pixel_step bz sess inp out) qs st1 = Inr st'"
    by (auto simp: ebind_eq_Inr)
  note ih = Cons.IH [OF rest]
  note f1 = pixel_step_frame(1) [OF one]
  note f2 = pixel_step_frame(2) [OF one]
  have "same_shape (fst st') (fst st)"
    using ih f1 by (blast intro: same_shape_trans)
  moreover have "dat (fst st') b r c ch = dat (fst st) b r c ch" if "(r, c) \<notin> set (q # qs)" for b r c ch
  proof -
    from that have "(r, c) \<notin> set qs" "(r, c) \<noteq> (fst q, snd q)" by auto
    then show ?thesis using ih f2 by simp
  qed
  ultimately show ?case by blast
qed

lemma upt_split3: "a \<le> k \<Longrightarrow> k < b \<Longrightarrow> [a..<b] = [a..<k] @ [k] @ [Suc k..<b]"
proof -
  assume "a \<le> k" "k < b"
  then have "[a..<b] = [a..<k] @ [k..<b]"
    using upt_add_eq_append [of a k "b - k"] by simp
  then show ?thesis using \<open>k < b\<close> by (simp add: upt_conv_Cons)
qed

lemma steps_split3:
  assumes "steps step (xs @ [(r, c)] @ ys) st = Inr st'"
  obtains prev s1 where "steps step xs st = Inr prev" and "step prev r c = Inr s1"
    and "steps step ys s1 = Inr st'"
proof -
  from assms obtain prev where a: "steps step xs st = Inr prev"
    and b: "steps step ([(r, c)] @ ys) prev = Inr st'"
    unfolding steps_append [of step xs] by (auto simp: ebind_eq_Inr)
  from b obtain s1 where "step prev r c = Inr s1" "steps step ys s1 = Inr st'"
    by (auto simp: ebind_eq_Inr)
  with a that show thesis by blast
qed

lemma prefix_split:
  assumes "c < width" and "row0 \<le> r" and "(r, c) = (i, j) \<or> before (r, c) (i, j)"
  shows "\<exists>mid. raster [row0..<i] [0..<width] @ map (Pair i) [0..<Suc j] =
           (raster [row0..<r] [0..<width] @ map (Pair r) [0..<c]) @ [(r, c)] @ mid \<and>
           (r, c) \<notin> set mid"
proof -
  from assms(3) consider "r = i" "c \<le> j" | "r < i"
    by (auto simp: before_def)
  then show ?thesis
  proof cases
    case 1
    have "[0..<Suc j] = [0..<c] @ [c] @ [Suc c..<Suc j]"
      using 1 by (intro upt_split3) simp_all
    then have "map (Pair i) [0..<Suc j] =
               map (Pair i) [0..<c] @ [(i, c)] @ map (Pair i) [Suc c..<Suc j]"
      by (simp only: map_append list.map)
    then have "raster [row0..<i] [0..<width] @ map (Pair i) [0..<Suc j] =
           (raster [row0..<r] [0..<width] @ map (Pair r) [0..<c]) @ [(r, c)] @
           map (Pair i) [Suc c..<Suc j]"
      using 1 by (simp only: append_assoc)
    moreover have "(r, c) \<notin> set (map (Pair i) [Suc c..<Suc j])"
      by auto
    ultimately show ?thesis by blast
  next
    case 2
    have "[row0..<i] = [row0..<r] @ [r] @ [Suc r..<i]"
      using 2 assms(2) by (intro upt_split3) simp_all
    then have a: "raster [row0..<i] [0..<width] =
        raster [row0..<r] [0..<width] @ map (Pair r) [0..<width] @ raster [Suc r..<i] [0..<width]"
      by (simp only: raster_append raster_single)
    have "[0..<width] = [0..<c] @ [c] @ [Suc c..<width]"
      using assms(1) by (intro upt_split3) simp_all
    then have b: "map (Pair r) [0..<width] =
               map (Pair r) [0..<c] @ [(r, c)] @ map (Pair r) [Suc c..<width]"
      by (simp only: map_append list.map)
    have "raster [row0..<i] [0..<width] @ map (Pair i) [0..<Suc j] =
           (raster [row0..<r] [0..<width] @ map (Pair r) [0..<c]) @ [(r, c)] @
           (map (Pair r) [Suc c..<width] @ raster [Suc r..<i] [0..<width] @
            map (Pair i) [0..<Suc j])"
      by (simp only: a b append_assoc)
    moreover have "(r, c) \<notin> set (map (Pair r) [Suc c..<width] @ raster [Suc r..<i] [0..<width] @
            map (Pair i) [0..<Suc j])"
      using 2 by (auto simp: set_raster)
    ultimately show ?thesis by blast
  qed
qed

lemma after_positions:
  assumes "(r, c) \<in> set (raster [row0..<i] [0..<width] @ map (Pair i) [0..<Suc j])"
  shows "(r, c) = (i, j) \<or> before (r, c) (i, j)"
  using assms by (auto simp: set_raster before_def)

lemma rest_positions:
  assumes "(r, c) \<in> set (map (Pair i) [Suc j..<width] @ raster [Suc i..<height] [0..<width])"
  shows "before (i, j) (r, c)"
  using assms by (auto simp: set_raster before_def)

lemma before_asym: "before q q' \<Longrightarrow> \<not> (q' = q \<or> before q' q)"
  by (auto simp: before_def)

lemma steps_value:
  assumes run: "steps (pixel_step bz sess inp out) (xs @ [(r, c)] @ ys) init = Inr final"
    and fresh: "(r, c) \<notin> set ys"
  shows "\<exists>prev probs.
           steps (pixel_step bz sess inp out) xs init = Inr prev \<and>
           predict sess (fst prev) inp out = Inr probs \<and>
           r < n_rows (fst init) \<and> c < n_cols (fst init) \<and>
           (\<forall>b<n_batch (fst init). \<forall>ch<n_chan (fst init).
              dat (fst final) b r c ch = rhs_value (fst (bz (snd prev) probs)) b r c ch)"
proof -
  from run obtain prev s1 where
    prev: "steps (pixel_step bz sess inp out) xs init = Inr prev"
    and one: "pixel_step bz sess inp out prev r c = Inr s1"
    and rest: "steps (pixel_step bz sess inp out) ys s1 = Inr final"
    by (rule steps_split3)
  obtain ps pg where prev_eq: "prev = (ps, pg)" by (cases prev)
  obtain s1s s1g where s1_eq: "s1 = (s1s, s1g)" by (cases s1)
  from one obtain probs where
    pr: "predict sess ps inp out = Inr probs" and
    asg: "assign_pixel ps (fst (bz pg probs)) r c = Inr s1s"
    unfolding prev_eq s1_eq by (rule pixel_step_Inr)
  have shape: "same_shape ps (fst init)"
    using steps_frame [OF prev] by (simp add: prev_eq)
  have w: "dat s1s b r c ch = rhs_value (fst (bz pg probs)) b r c ch"
    if "b < n_batch (fst init)" "ch < n_chan (fst init)" for b ch
    using assign_pixel_Inr(5) [OF asg, of b ch] that shape by (simp add: same_shape_def)
  have keep: "dat (fst final) b r c ch = dat s1s b r c ch" for b ch
    using steps_frame [OF rest] fresh by (simp add: s1_eq)
  have "r < n_rows (fst init)" "c < n_cols (fst init)"
    using assign_pixel_Inr(2,3) [OF asg] shape by (simp_all add: same_shape_def)
  then show ?thesis
    using prev pr w keep by (auto simp: prev_eq)
qed

lemma constant_step:
  assumes cm: "constant_model sess inp out h w prob"
    and shape: "same_shape s (np_zeros n h w 1)"
    and ij: "i < h" "j < w"
  shows "\<exists>s'. pixel_step binarize_threshold sess inp out (s, g) i j = Inr (s', g)"
proof -
  have dims: "n_batch s = n" "n_rows s = h" "n_cols s = w" "n_chan s = 1"
    using shape by (simp_all add: same_shape_def np_zeros_def)
  have "predict sess s inp out =
          Inr \<lparr>n_batch = n_batch s, n_rows = h, n_cols = w, n_chan = 1, dat = (\<lambda>_ _ _ _. prob)\<rparr>"
    using cm dims unfolding constant_model_def by blast
  then show ?thesis
    using ij dims
    by (simp add: pixel_step_def binarize_threshold_def tmap_def assign_pixel_def)
qed

lemma constant_steps:
  assumes cm: "constant_model sess inp out h w prob"
    and shape: "same_shape s (np_zeros n h w 1)"
    and inside: "set qs \<subseteq> {..<h} \<times> {..<w}"
  shows "\<exists>s'. steps (pixel_step binarize_threshold sess inp out) qs (s, g) = Inr (s', g)"
  using shape inside
proof (induction qs arbitrary: s)
  case Nil
  then show ?case by simp
next
  case (Cons q qs)
  from Cons.prems(2) have q: "fst q < h" "snd q < w" by auto
  from constant_step [OF cm Cons.prems(1) q, of g] obtain s1 where
    one: "pixel_step binarize_threshold sess inp out (s, g) (fst q) (snd q) = Inr (s1, g)" by blast
  have "same_shape s1 (np_zeros n h w 1)"
    using pixel_step_frame(1) [OF one] Cons.prems(1) by (simp add: same_shape_def)
  from Cons.IH [OF this] Cons.prems(2) obtain s' where
    "steps (pixel_step binarize_threshold sess inp out) qs (s1, g) = Inr (s', g)" by auto
  with one show ?case by simp
qed

lemma constant_loop:
  assumes cm: "constant_model sess inputs output height width prob"
    and shape: "same_shape s (np_zeros n height width 1)"
    and rows: "set rows \<subseteq> {..<height}"
  shows "\<exists>final. outer_loop (pixel_step binarize_threshold sess inputs output)
             rows [0..<width] (s, g) = Inr (final, g) \<and>
           same_shape final s \<and>
           (\<forall>b<n. \<forall>r\<in>set rows. \<forall>c<width.
              dat final b r c 0 = (if prob > 1 / 2 then 1 else 0)) \<and>
           (\<forall>b r c ch. r \<notin> set rows \<longrightarrow> dat final b r c ch = dat s b r c ch)"
proof -
  let ?step = "pixel_step binarize_threshold sess inputs output"
  let ?all = "raster rows [0..<width]"
  have "set ?all \<subseteq> {..<height} \<times> {..<width}"
    using rows by (auto simp: set_raster)
  from constant_steps [OF cm shape this, of g] obtain final where
    fin: "steps ?step ?all (s, g) = Inr (final, g)" by blast
  have fshape: "same_shape final s"
    using steps_frame [OF fin] by simp
  have dims: "n_batch s = n" "n_chan s = 1"
    using shape by (simp_all add: same_shape_def np_zeros_def)
  have val: "dat final b r c 0 = (if prob > 1 / 2 then 1 else 0)"
    if "b < n" "r \<in> set rows" "c < width" for b r c
  proof -
    have "(r, c) \<in> set ?all" using that by (simp add: set_raster)
    then have "\<exists>xs ys. ?all = xs @ (r, c) # ys \<and> (r, c) \<notin> set ys"
      by (rule split_list_last)
    then obtain xs ys where split: "?all = xs @ [(r, c)] @ ys" and fresh: "(r, c) \<notin> set ys"
      by auto
    from steps_value [OF fin [unfolded split] fresh] obtain prev probs where
      prev: "steps ?step xs (s, g) = Inr prev"
      and pr: "predict sess (fst prev) inputs output = Inr probs"
      and w: "\<forall>b<n. dat final b r c 0 = rhs_value (fst (binarize_threshold (snd prev) probs)) b r c 0"
      by (auto simp: dims)
    have "same_shape (fst prev) (np_zeros n height width 1)"
      using steps_frame [OF prev] shape by (simp add: same_shape_def)
    then have "predict sess (fst prev) inputs output =
          Inr \<lparr>n_batch = n_batch (fst prev), n_rows = height, n_cols = width, n_chan = 1,
               dat = (\<lambda>_ _ _ _. prob)\<rparr>"
      using cm unfolding constant_model_def by (simp add: same_shape_def np_zeros_def)
    with pr have "probs = \<lparr>n_batch = n_batch (fst prev), n_rows = height, n_cols = width, n_chan = 1,
               dat = (\<lambda>_ _ _ _. prob)\<rparr>" by simp
    then have "rhs_value (fst (binarize_threshold (snd prev) probs)) b r c 0 =
           (if prob > 1 / 2 then 1 else 0)"
      by (simp add: rhs_value_def binarize_threshold_def tmap_def)
    with w that show ?thesis by simp
  qed
  have keep: "dat final b r c ch = dat s b r c ch" if "r \<notin> set rows" for b r c ch
  proof -
    from that have "(r, c) \<notin> set ?all" by (simp add: set_raster)
    then show ?thesis using steps_frame [OF fin] by simp
  qed
  from fin fshape val keep show ?thesis
    unfolding outer_loop_steps by blast
qed

lemma to_lists_constant:
  assumes "same_shape t (np_zeros n h w 1)"
    and "\<forall>b<n. \<forall>r<h. \<forall>c<w. dat t b r c 0 = v"
  shows "to_lists t = replicate n (replicate h (replicate w [v]))"
proof -
  have dims: "n_batch t = n" "n_rows t = h" "n_cols t = w" "n_chan t = 1"
    using assms(1) by (simp_all add: same_shape_def np_zeros_def)
  have "to_lists t = map (\<lambda>b. map (\<lambda>i. map (\<lambda>j. [v]) [0..<w]) [0..<h]) [0..<n]"
    unfolding to_lists_def dims using assms(2) by (auto intro!: map_cong)
  then show ?thesis by (simp add: map_replicate_const)
qed

lemma sigmoid_ln9: "sigmoid (ln 9) = 9 / 10"
  by (simp add: sigmoid_def exp_minus)

lemma relu_0: "relu 0 = 0" by (simp add: relu_def)

lemma bias_session_constant:
  "constant_model (bias_session v) (fst (pixelRNN h w 1 p)) (fst (snd (pixelRNN h w 1 p))) h w (sigmoid v)"
  unfolding constant_model_def
  by (simp add: pixelRNN_def p_def Let_def input_shape_def predict_def fed_def
      feed_compatible_def dim_ok_def conv2d_apply_def tmap_def bias_session_def relu_0
      eval_nat_numeral)

lemma sigmoid_ln_ninth: "sigmoid (ln (1 / 9)) = 1 / 10"
  by (simp add: sigmoid_def exp_minus ln_div)

lemma bias_model_09:
  "constant_model (bias_session (ln 9)) (fst (pixelRNN h w 1 p)) (fst (snd (pixelRNN h w 1 p))) h w (9 / 10)"
  using bias_session_constant [of "ln 9" h w] by (simp only: sigmoid_ln9)

lemma bias_model_01:
  "constant_model (bias_session (ln (1 / 9))) (fst (pixelRNN h w 1 p)) (fst (snd (pixelRNN h w 1 p))) h w (1 / 10)"
  using bias_session_constant [of "ln (1 / 9)" h w] by (simp only: sigmoid_ln_ninth)

section \<open>Raster order of \<open>generate\<close>\<close>

text \<open>
  C2. Let \<open>generate\<close> return, and let \<open>(i, j)\<close> be a pixel of the canvas. The loop state
  when the iteration at \<open>(i, j)\<close> has finished exists, and the remaining iterations lead
  from it to the returned canvas. In that state every position strictly after \<open>(i, j)\<close> in
  raster order holds its initial value, and every position \<open>(r, c)\<close> at or before \<open>(i, j)\<close>
  holds, for each of the 100 batch elements, the value at \<open>(r, c)\<close> of the binarized
  prediction that was computed on the canvas as it was when the iteration at \<open>(r, c)\<close>
  started; that value is final, the returned canvas has it too.
\<close>

theorem generate_raster_order:
  assumes "i < height" and "j < width"
    and "generate binarize g sess height width inputs output = Inr final"
  shows "\<exists>st.
      canvas_after (pixel_step binarize sess inputs output) 0 width i j
        (np_zeros 100 height width 1, g) = Inr st \<and>
      finish_from (pixel_step binarize sess inputs output) height width i j st = Inr final \<and>
      (\<forall>b r c ch. before (i, j) (r, c) \<longrightarrow>
         dat (fst st) b r c ch = dat (np_zeros 100 height width 1) b r c ch) \<and>
      (\<forall>r c. c < width \<and> ((r, c) = (i, j) \<or> before (r, c) (i, j)) \<longrightarrow>
         (\<exists>prev probs.
            canvas_before (pixel_step binarize sess inputs output) 0 width r c
              (np_zeros 100 height width 1, g) = Inr prev \<and>
            predict sess (fst prev) inputs output = Inr probs \<and>
            (\<forall>b<100. dat (fst st) b r c 0 =
                        rhs_value (fst (binarize (snd prev) probs)) b r c 0 \<and>
                      dat (fst final) b r c 0 = dat (fst st) b r c 0)))"
proof -
  let ?step = "pixel_step binarize sess inputs output"
  let ?init = "(np_zeros 100 height width 1, g)"
  have "outer_loop ?step [0..<height] [0..<width] ?init = Inr final"
    using assms(3) by (simp add: generate_def)
  then have "ebind (canvas_after ?step 0 width i j ?init) (finish_from ?step height width i j) = Inr final"
    using loop_split [of 0 i height j width ?step ?init] assms(1,2) by simp
  then obtain st where st: "canvas_after ?step 0 width i j ?init = Inr st"
    and fin: "finish_from ?step height width i j st = Inr final"
    by (auto simp: ebind_eq_Inr)
  note st_steps = st [unfolded canvas_after_steps]
  note fin_steps = fin [unfolded finish_from_steps]
  have later: "dat (fst st) b r c ch = dat (np_zeros 100 height width 1) b r c ch"
    if "before (i, j) (r, c)" for b r c ch
  proof -
    have "(r, c) \<notin> set (raster [0..<i] [0..<width] @ map (Pair i) [0..<Suc j])"
      using that after_positions before_asym by blast
    then show ?thesis using steps_frame [OF st_steps] by simp
  qed
  have earlier: "\<exists>prev probs.
            canvas_before ?step 0 width r c ?init = Inr prev \<and>
            predict sess (fst prev) inputs output = Inr probs \<and>
            (\<forall>b<100. dat (fst st) b r c 0 =
                        rhs_value (fst (binarize (snd prev) probs)) b r c 0 \<and>
                      dat (fst final) b r c 0 = dat (fst st) b r c 0)"
    if c: "c < width" and le: "(r, c) = (i, j) \<or> before (r, c) (i, j)" for r c
  proof -
    from prefix_split [OF c _ le, of 0] obtain mid where
      split: "raster [0..<i] [0..<width] @ map (Pair i) [0..<Suc j] =
           (raster [0..<r] [0..<width] @ map (Pair r) [0..<c]) @ [(r, c)] @ mid"
      and mid: "(r, c) \<notin> set mid" by auto
    from steps_value [OF st_steps [unfolded split] mid]
    obtain prev probs where
      prev: "canvas_before ?step 0 width r c ?init = Inr prev"
      and pr: "predict sess (fst prev) inputs output = Inr probs"
      and w: "\<forall>b<100. dat (fst st) b r c 0 = rhs_value (fst (binarize (snd prev) probs)) b r c 0"
      by (auto simp: canvas_before_steps np_zeros_def)
    have "(r, c) \<notin> set (map (Pair i) [Suc j..<width] @ raster [Suc i..<height] [0..<width])"
      using le rest_positions before_asym by blast
    then have "dat (fst final) b r c 0 = dat (fst st) b r c 0" for b
      using steps_frame [OF fin_steps] by simp
    with prev pr w show ?thesis by blast
  qed
  from st fin later earlier show ?thesis by blast
qed

text \<open>
  The theorem on a 3\<times>3 canvas after the pixel \<open>(1, 1)\<close>, for the notebook's graph with a
  session that predicts 0.9 everywhere.
\<close>

theorem generate_raster_order_witness:
  "\<exists>final st.
      generate binarize_threshold () (bias_session (ln 9)) 3 3
        (fst (pixelRNN 3 3 1 p)) (fst (snd (pixelRNN 3 3 1 p))) = Inr final \<and>
      canvas_after (pixel_step binarize_threshold (bias_session (ln 9))
          (fst (pixelRNN 3 3 1 p)) (fst (snd (pixelRNN 3 3 1 p)))) 0 3 1 1
        (np_zeros 100 3 3 1, ()) = Inr st \<and>
      dat (fst st) 0 1 2 0 = 0 \<and> dat (fst st) 0 2 0 0 = 0 \<and>
      dat (fst final) 0 0 2 0 = dat (fst st) 0 0 2 0 \<and>
      dat (fst final) 0 1 1 0 = dat (fst st) 0 1 1 0"
proof -
  let ?inp = "fst (pixelRNN 3 3 1 p)" and ?out = "fst (snd (pixelRNN 3 3 1 p))"
  have "set [0..<3] \<subseteq> {..<3::nat}" by auto
  from constant_loop [OF bias_model_09 [of 3 3] same_shape_refl this, of 100 "()"]
  obtain final where
    gen: "generate binarize_threshold () (bias_session (ln 9)) 3 3 ?inp ?out = Inr (final, ())"
    unfolding generate_def Let_def by blast
  have ij: "(1::nat) < 3" by simp
  from generate_raster_order [OF ij ij gen] obtain st where
    st: "canvas_after (pixel_step binarize_threshold (bias_session (ln 9)) ?inp ?out) 0 3 1 1
           (np_zeros 100 3 3 1, ()) = Inr st"
    and later: "\<forall>b r c ch. before (1, 1) (r, c) \<longrightarrow>
         dat (fst st) b r c ch = dat (np_zeros 100 3 3 1) b r c ch"
    and earlier: "\<forall>r c. c < 3 \<and> ((r, c) = (1, 1) \<or> before (r, c) (1, 1)) \<longrightarrow>
         (\<exists>prev probs.
            canvas_before (pixel_step binarize_threshold (bias_session (ln 9)) ?inp ?out) 0 3 r c
              (np_zeros 100 3 3 1, ()) = Inr prev \<and>
            predict (bias_session (ln 9)) (fst prev) ?inp ?out = Inr probs \<and>
            (\<forall>b<100. dat (fst st) b r c 0 =
                        rhs_value (fst (binarize_threshold (snd prev) probs)) b r c 0 \<and>
                      dat (fst (final, ())) b r c 0 = dat (fst st) b r c 0))"
    by blast
  have a: "dat (fst st) 0 1 2 0 = 0" "dat (fst st) 0 2 0 0 = 0"
    using later by (simp_all add: before_def np_zeros_def)
  have b: "dat final 0 0 2 0 = dat (fst st) 0 0 2 0"
    using earlier [rule_format, of 2 0] by (auto simp: before_def)
  have c: "dat final 0 1 1 0 = dat (fst st) 0 1 1 0"
    using earlier [rule_format, of 1 1] by (auto simp: before_def)
  from gen st a b c show ?thesis by auto
qed

section \<open>Constant probabilities\<close>

text \<open>
  C9. With height and width 3 and a model that predicts the same probability everywhere,
  \<open>generate\<close> under the threshold binarization returns; the result is 100 images of 3\<times>3
  pixels and one channel, all ones when the probability is 0.9 and all zeros when it is
  0.1.
\<close>

theorem generate_constant_probability:
  assumes "constant_model sess inputs output 3 3 prob"
  shows "\<exists>final.
      generate binarize_threshold g sess 3 3 inputs output = Inr (final, g) \<and>
      (prob = 9 / 10 \<longrightarrow> to_lists final = replicate 100 (replicate 3 (replicate 3 [1]))) \<and>
      (prob = 1 / 10 \<longrightarrow> to_lists final = replicate 100 (replicate 3 (replicate 3 [0])))"
proof -
  have "set [0..<3] \<subseteq> {..<3::nat}" by auto
  from constant_loop [OF assms same_shape_refl this, of 100 g] obtain final where
    fin: "outer_loop (pixel_step binarize_threshold sess inputs output)
             [0..<3] [0..<3] (np_zeros 100 3 3 1, g) = Inr (final, g)"
    and shape: "same_shape final (np_zeros 100 3 3 1)"
    and val': "\<forall>b<100. \<forall>r\<in>set [0..<3]. \<forall>c<3. dat final b r c 0 = (if prob > 1 / 2 then 1 else 0)"
    by blast
  from val' have val: "\<forall>b<100. \<forall>r<3. \<forall>c<3. dat final b r c 0 = (if prob > 1 / 2 then 1 else 0)"
    by simp
  have gen: "generate binarize_threshold g sess 3 3 inputs output = Inr (final, g)"
    unfolding generate_def Let_def by (rule fin)
  have tl: "to_lists final =
      replicate 100 (replicate 3 (replicate 3 [if prob > 1 / 2 then 1 else 0]))"
    using shape val by (rule to_lists_constant)
  have hi: "to_lists final = replicate 100 (replicate 3 (replicate 3 [1]))" if "prob = 9 / 10"
  proof -
    from that have "(if prob > 1 / 2 then 1 else 0) = (1::real)" by simp
    then show ?thesis by (simp only: tl)
  qed
  have lo: "to_lists final = replicate 100 (replicate 3 (replicate 3 [0]))" if "prob = 1 / 10"
  proof -
    from that have "(if prob > 1 / 2 then 1 else 0) = (0::real)" by simp
    then show ?thesis by (simp only: tl)
  qed
  show ?thesis
  proof (intro exI conjI impI)
    show "generate binarize_threshold g sess 3 3 inputs output = Inr (final, g)" by (rule gen)
  qed (erule hi, erule lo)
qed

text \<open>
  The theorem for the notebook's graph with the sessions that predict 0.9 and 0.1.
\<close>

theorem generate_constant_probability_witness:
  "(\<exists>final.
      generate binarize_threshold () (bias_session (ln 9)) 3 3
        (fst (pixelRNN 3 3 1 p)) (fst (snd (pixelRNN 3 3 1 p))) = Inr (final, ()) \<and>
      to_lists final = replicate 100 (replicate 3 (replicate 3 [1]))) \<and>
   (\<exists>final.
      generate binarize_threshold () (bias_session (ln (1 / 9))) 3 3
        (fst (pixelRNN 3 3 1 p)) (fst (snd (pixelRNN 3 3 1 p))) = Inr (final, ()) \<and>
      to_lists final = replicate 100 (replicate 3 (replicate 3 [0])))"
  using generate_constant_probability [OF bias_model_09 [of 3 3], of "()"]
    generate_constant_probability [OF bias_model_01 [of 3 3], of "()"]
  by blast

section \<open>The rows \<open>generate_occlusions\<close> keeps\<close>

text \<open>
  C5. Let the global \<open>images\<close> be bound and \<open>occlude\<close> return the seeded canvas. For every
  pixel \<open>(i, j)\<close> the loop visits, the run of \<open>generate_occlusions\<close> passes through the state
  after the iteration at \<open>(i, j)\<close>; in every such state, and in the returned canvas, every
  row with index below \<open>height // 2\<close> is equal to that row of the seeded canvas, for every
  batch element, column and channel.
\<close>

theorem generate_occlusions_keeps_top_rows:
  assumes "images glob = Some imgs" and "occlude imgs height width = Inr seeded"
  shows "(\<forall>i j. height div 2 \<le> i \<and> i < height \<and> j < width \<longrightarrow>
            generate_occlusions glob occlude binarize g sess height width inputs output =
              ebind (canvas_after (pixel_step binarize sess inputs output) (height div 2) width i j
                       (seeded, g))
                    (finish_from (pixel_step binarize sess inputs output) height width i j)) \<and>
         (\<forall>i j st. height div 2 \<le> i \<and> i < height \<and> j < width \<and>
            canvas_after (pixel_step binarize sess inputs output) (height div 2) width i j
              (seeded, g) = Inr st \<longrightarrow>
            (\<forall>r<height div 2. \<forall>b c ch. dat (fst st) b r c ch = dat seeded b r c ch)) \<and>
         (\<forall>final. generate_occlusions glob occlude binarize g sess height width inputs output
              = Inr final \<longrightarrow>
            (\<forall>r<height div 2. \<forall>b c ch. dat (fst final) b r c ch = dat seeded b r c ch))"
proof -
  let ?step = "pixel_step binarize sess inputs output"
  have gen: "generate_occlusions glob occlude binarize g sess height width inputs output =
        outer_loop ?step [height div 2..<height] [0..<width] (seeded, g)"
    using assms by (simp add: generate_occlusions_def)
  have link: "generate_occlusions glob occlude binarize g sess height width inputs output =
              ebind (canvas_after ?step (height div 2) width i j (seeded, g))
                    (finish_from ?step height width i j)"
    if "height div 2 \<le> i" "i < height" "j < width" for i j
    unfolding gen using that by (rule loop_split)
  have during: "dat (fst st) b r c ch = dat seeded b r c ch"
    if "height div 2 \<le> i"
      and "canvas_after ?step (height div 2) width i j (seeded, g) = Inr st"
      and "r < height div 2" for i j st r b c ch
  proof -
    have "(r, c) \<notin> set (raster [height div 2..<i] [0..<width] @ map (Pair i) [0..<Suc j])"
      using that(1,3) by (auto simp: set_raster)
    then show ?thesis
      using steps_frame [OF that(2) [unfolded canvas_after_steps]] by simp
  qed
  have after: "dat (fst final) b r c ch = dat seeded b r c ch"
    if "generate_occlusions glob occlude binarize g sess height width inputs output = Inr final"
      and "r < height div 2" for final r b c ch
  proof -
    have "(r, c) \<notin> set (raster [height div 2..<height] [0..<width])"
      using that(2) by (auto simp: set_raster)
    then show ?thesis
      using steps_frame [OF that(1) [unfolded gen outer_loop_steps]] by simp
  qed
  from link during after show ?thesis by blast
qed

text \<open>
  The theorem on a 4\<times>4 canvas of ones, occluded to its two top rows, with a session that
  predicts 0.1 everywhere: the two top rows stay 1 and the two bottom rows become 0.
\<close>

theorem generate_occlusions_keeps_top_rows_witness:
  "\<exists>final.
     generate_occlusions \<lparr>images = Some (np_ones 100 4 4 1)\<rparr> occlude_top_half binarize_threshold ()
       (bias_session (ln (1 / 9))) 4 4 (fst (pixelRNN 4 4 1 p)) (fst (snd (pixelRNN 4 4 1 p)))
       = Inr final \<and>
     dat (fst final) 0 0 0 0 = 1 \<and> dat (fst final) 0 1 3 0 = 1 \<and>
     dat (fst final) 0 2 0 0 = 0 \<and> dat (fst final) 0 3 3 0 = 0"
proof -
  let ?inp = "fst (pixelRNN 4 4 1 p)" and ?out = "fst (snd (pixelRNN 4 4 1 p))"
  let ?glob = "\<lparr>images = Some (np_ones 100 4 4 1)\<rparr>"
  let ?seeded = "(np_ones 100 4 4 1)\<lparr>dat := (\<lambda>b r c ch. if r < 4 div 2 then dat (np_ones 100 4 4 1) b r c ch else 0)\<rparr>"
  have occ: "occlude_top_half (np_ones 100 4 4 1) 4 4 = Inr ?seeded"
    by (simp only: occlude_top_half_def)
  have img: "images ?glob = Some (np_ones 100 4 4 1)" by simp
  have shape: "same_shape ?seeded (np_zeros 100 4 4 1)"
    by (simp add: same_shape_def np_zeros_def np_ones_def)
  have rows: "set [4 div 2..<4] \<subseteq> {..<4::nat}" by auto
  from constant_loop [OF bias_model_01 [of 4 4] shape rows, of "()"] obtain final where
    fin: "outer_loop (pixel_step binarize_threshold (bias_session (ln (1 / 9))) ?inp ?out)
            [4 div 2..<4] [0..<4] (?seeded, ()) = Inr (final, ())"
    and val: "\<forall>b<100. \<forall>r\<in>set [4 div 2..<4]. \<forall>c<4. dat final b r c 0 = (if (1 / 10 :: real) > 1 / 2 then 1 else 0)"
    by blast
  have gen: "generate_occlusions ?glob occlude_top_half binarize_threshold ()
       (bias_session (ln (1 / 9))) 4 4 ?inp ?out = Inr (final, ())"
    unfolding generate_occlusions_def img option.case occ ebind_Inr Let_def fst_conv snd_conv
    by (rule fin)
  from generate_occlusions_keeps_top_rows [where occlude = occlude_top_half and height = 4
      and width = 4 and binarize = binarize_threshold and g = "()"
      and sess = "bias_session (ln (1 / 9))" and inputs = ?inp and ?output = ?out, OF img occ] gen
  have top: "\<forall>r<4 div 2. \<forall>b c ch. dat final b r c ch = dat ?seeded b r c ch"
    by auto
  have "dat final 0 0 0 0 = 1" "dat final 0 1 3 0 = 1"
    using top by (simp_all add: np_ones_def)
  moreover have "dat final 0 2 0 0 = 0" "dat final 0 3 3 0 = 0"
    using val by simp_all
  ultimately show ?thesis using gen by auto
qed

section \<open>The batch size of \<open>generate\<close>\<close>

text \<open>
  C7 as stated fails: \<open>generate\<close> has no \<open>batch_size\<close> parameter. Where the procedure of the
  specification, called with batch size 5, returns 5 images, the code returns 100.
\<close>

theorem generate_batch_size_counterexample:
  "result_shape (generate binarize_threshold () (bias_session (ln 9)) 3 3
       (fst (pixelRNN 3 3 1 p)) (fst (snd (pixelRNN 3 3 1 p)))) = Inr (100, 3, 3, 1) \<and>
   result_shape (generate_spec binarize_threshold () (bias_session (ln 9))
       (fst (pixelRNN 3 3 1 p)) (fst (snd (pixelRNN 3 3 1 p))) 5 3 3) = Inr (5, 3, 3, 1)"
proof -
  let ?inp = "fst (pixelRNN 3 3 1 p)" and ?out = "fst (snd (pixelRNN 3 3 1 p))"
  have rows: "set [0..<3] \<subseteq> {..<3::nat}" by auto
  from constant_loop [OF bias_model_09 [of 3 3] same_shape_refl rows, of 100 "()"]
  obtain final where
    "generate binarize_threshold () (bias_session (ln 9)) 3 3 ?inp ?out = Inr (final, ())"
    "same_shape final (np_zeros 100 3 3 1)"
    unfolding generate_def Let_def by blast
  then have a: "result_shape (generate binarize_threshold () (bias_session (ln 9)) 3 3 ?inp ?out)
      = Inr (100, 3, 3, 1)"
    by (simp add: result_shape_def same_shape_def np_zeros_def)
  from constant_loop [OF bias_model_09 [of 3 3] same_shape_refl rows, of 5 "()"]
  obtain final' where
    "generate_spec binarize_threshold () (bias_session (ln 9)) ?inp ?out 5 3 3 = Inr (final', ())"
    "same_shape final' (np_zeros 5 3 3 1)"
    unfolding generate_spec_def by blast
  then have b: "result_shape (generate_spec binarize_threshold () (bias_session (ln 9)) ?inp ?out 5 3 3)
      = Inr (5, 3, 3, 1)"
    by (simp add: result_shape_def same_shape_def np_zeros_def)
  from a b show ?thesis by (rule conjI)
qed

text \<open>
  C7, amended. \<open>generate\<close> takes the session, the height, the width and the two graph
  nodes. Whenever it returns, the returned tensor has batch dimension 100, the given
  height and width and one channel: it is the specification's procedure at batch size
  100.
\<close>

theorem generate_returns_batch_100:
  assumes "generate binarize g sess height width inputs output = Inr final"
  shows "n_batch (fst final) = 100 \<and> n_rows (fst final) = height \<and>
         n_cols (fst final) = width \<and> n_chan (fst final) = 1 \<and>
         generate binarize g sess height width inputs output =
           generate_spec binarize g sess inputs output 100 height width"
proof -
  have "steps (pixel_step binarize sess inputs output) (raster [0..<height] [0..<width])
          (np_zeros 100 height width 1, g) = Inr final"
    using assms by (simp add: generate_def outer_loop_steps)
  from steps_frame [OF this] have "same_shape (fst final) (np_zeros 100 height width 1)"
    by simp
  then show ?thesis
    by (simp add: same_shape_def np_zeros_def generate_def generate_spec_def)
qed

theorem generate_returns_batch_100_witness:
  "\<exists>final.
      generate binarize_threshold () (bias_session (ln 9)) 3 3
        (fst (pixelRNN 3 3 1 p)) (fst (snd (pixelRNN 3 3 1 p))) = Inr final \<and>
      n_batch (fst final) = 100 \<and> n_rows (fst final) = 3 \<and>
      n_cols (fst final) = 3 \<and> n_chan (fst final) = 1"
proof -
  let ?inp = "fst (pixelRNN 3 3 1 p)" and ?out = "fst (snd (pixelRNN 3 3 1 p))"
  have rows: "set [0..<3] \<subseteq> {..<3::nat}" by auto
  from constant_loop [OF bias_model_09 [of 3 3] same_shape_refl rows, of 100 "()"]
  obtain final where
    gen: "generate binarize_threshold () (bias_session (ln 9)) 3 3 ?inp ?out = Inr (final, ())"
    unfolding generate_def Let_def by blast
  from generate_returns_batch_100 [OF gen] gen show ?thesis by blast
qed

section \<open>The seed of \<open>generate_occlusions\<close>\<close>

text \<open>
  C6 as stated fails: \<open>generate_occlusions\<close> has no seed parameter. With the same
  arguments, the result follows the global \<open>images\<close>: when the global holds images of ones,
  the top-left pixel of the result is 1, where the procedure of the specification, given
  seed images of zeros, returns 0 there; and when the global is unbound the call raises
  \<open>NameError\<close>.
\<close>

theorem generate_occlusions_seed_counterexample:
  "result_pixel (generate_occlusions \<lparr>images = Some (np_ones 100 4 4 1)\<rparr> occlude_top_half
       binarize_threshold () (bias_session (ln (1 / 9))) 4 4
       (fst (pixelRNN 4 4 1 p)) (fst (snd (pixelRNN 4 4 1 p)))) 0 0 0 0 = Inr 1 \<and>
   result_pixel (generate_occlusions_spec binarize_threshold () (bias_session (ln (1 / 9)))
       (fst (pixelRNN 4 4 1 p)) (fst (snd (pixelRNN 4 4 1 p))) (np_zeros 100 4 4 1) 4 4)
       0 0 0 0 = Inr 0 \<and>
   generate_occlusions \<lparr>images = None\<rparr> occlude_top_half
       binarize_threshold () (bias_session (ln (1 / 9))) 4 4
       (fst (pixelRNN 4 4 1 p)) (fst (snd (pixelRNN 4 4 1 p))) = Inl NameError"
proof -
  let ?inp = "fst (pixelRNN 4 4 1 p)" and ?out = "fst (snd (pixelRNN 4 4 1 p))"
  let ?step = "pixel_step binarize_threshold (bias_session (ln (1 / 9))) ?inp ?out"
  let ?seeded = "(np_ones 100 4 4 1)\<lparr>dat := (\<lambda>b r c ch. if r < 4 div 2 then dat (np_ones 100 4 4 1) b r c ch else 0)\<rparr>"
  have rows: "set [4 div 2..<4] \<subseteq> {..<4::nat}" by auto
  have shape: "same_shape ?seeded (np_zeros 100 4 4 1)"
    by (simp add: same_shape_def np_zeros_def np_ones_def)
  from constant_loop [OF bias_model_01 [of 4 4] shape rows, of "()"] obtain final where
    fin: "outer_loop ?step [4 div 2..<4] [0..<4] (?seeded, ()) = Inr (final, ())"
    and keep: "\<forall>b r c ch. r \<notin> set [4 div 2..<4] \<longrightarrow> dat final b r c ch = dat ?seeded b r c ch"
    by blast
  have gen: "generate_occlusions \<lparr>images = Some (np_ones 100 4 4 1)\<rparr> occlude_top_half
       binarize_threshold () (bias_session (ln (1 / 9))) 4 4 ?inp ?out = Inr (final, ())"
    unfolding generate_occlusions_def globals.simps option.case occlude_top_half_def ebind_Inr
      Let_def fst_conv snd_conv
    by (rule fin)
  have "dat final 0 0 0 0 = 1" using keep by (simp add: np_ones_def)
  then have a: "result_pixel (generate_occlusions \<lparr>images = Some (np_ones 100 4 4 1)\<rparr>
       occlude_top_half binarize_threshold () (bias_session (ln (1 / 9))) 4 4 ?inp ?out) 0 0 0 0
       = Inr 1"
    by (simp only: gen result_pixel_def sum.case fst_conv)
  from constant_loop [OF bias_model_01 [of 4 4] same_shape_refl rows, of 100 "()"] obtain final' where
    fin': "outer_loop ?step [4 div 2..<4] [0..<4] (np_zeros 100 4 4 1, ()) = Inr (final', ())"
    and keep': "\<forall>b r c ch. r \<notin> set [4 div 2..<4] \<longrightarrow> dat final' b r c ch = dat (np_zeros 100 4 4 1) b r c ch"
    by blast
  have "dat final' 0 0 0 0 = 0" using keep' by (simp add: np_zeros_def)
  then have b: "result_pixel (generate_occlusions_spec binarize_threshold ()
       (bias_session (ln (1 / 9))) ?inp ?out (np_zeros 100 4 4 1) 4 4) 0 0 0 0 = Inr 0"
    by (simp only: generate_occlusions_spec_def fin' result_pixel_def sum.case fst_conv)
  have c: "generate_occlusions \<lparr>images = None\<rparr> occlude_top_half
       binarize_threshold () (bias_session (ln (1 / 9))) 4 4 ?inp ?out = Inl NameError"
    by (simp add: generate_occlusions_def)
  from a b c show ?thesis by (intro conjI)
qed

text \<open>
  C6, amended. \<open>generate_occlusions\<close> takes the session, the height, the width and the two
  graph nodes. It reads the notebook's global \<open>images\<close>, raising \<open>NameError\<close> when that is
  unbound, and initializes its canvas to \<open>occlude(images, height, width)\<close>; from there it
  is the specification's procedure run on that canvas.
\<close>

theorem generate_occlusions_reads_global:
  "generate_occlusions glob occlude binarize g sess height width inputs output =
     (case images glob of
        None \<Rightarrow> Inl NameError
      | Some imgs \<Rightarrow>
          ebind (occlude imgs height width) (\<lambda>seeded.
            generate_occlusions_spec binarize g sess inputs output seeded height width))"
  by (simp add: generate_occlusions_def generate_occlusions_spec_def split: option.splits)

text \<open>The theorem at a global of 4\<times>4 images of ones, occluded to their top half.\<close>

theorem generate_occlusions_reads_global_witness:
  "generate_occlusions \<lparr>images = Some (np_ones 100 4 4 1)\<rparr> occlude_top_half
       binarize_threshold () (bias_session (ln (1 / 9))) 4 4
       (fst (pixelRNN 4 4 1 p)) (fst (snd (pixelRNN 4 4 1 p))) =
   generate_occlusions_spec binarize_threshold () (bias_session (ln (1 / 9)))
       (fst (pixelRNN 4 4 1 p)) (fst (snd (pixelRNN 4 4 1 p)))
       ((np_ones 100 4 4 1)\<lparr>dat := (\<lambda>b r c ch. if r < 4 div 2 then dat (np_ones 100 4 4 1) b r c ch else 0)\<rparr>)
       4 4"
  unfolding generate_occlusions_reads_global [where occlude = occlude_top_half]
  by (simp only: globals.simps option.case occlude_top_half_def ebind_Inr)

section \<open>The input layout and the generation loops\<close>

lemma run_feed_ok:
  "run sess (Placeholder s) val nd = Inr t \<Longrightarrow> feed_compatible s val"
proof (induction nd arbitrary: t)
  case (Placeholder s')
  then show ?case by (auto simp: fed_def split: if_splits)
next
  case (Conv2d x n ks m scope)
  then show ?case by (auto simp: ebind_eq_Inr)
next
  case (Relu x)
  then show ?case by (auto simp: ebind_eq_Inr)
next
  case (Sigmoid x)
  then show ?case by (auto simp: ebind_eq_Inr)
qed

lemma pixel_step_feed_ok:
  assumes "pixel_step bz sess (Placeholder s) out (samples, g) i j = Inr st'"
  shows "feed_compatible s samples"
proof -
  obtain s' g' where "st' = (s', g')" by (cases st')
  with assms obtain probs where "predict sess samples (Placeholder s) out = Inr probs"
    by (auto elim: pixel_step_Inr)
  then show ?thesis unfolding predict_def by (rule run_feed_ok)
qed

lemma run_feed_bad:
  "\<not> feed_compatible s val \<Longrightarrow> source_of nd = Placeholder s \<Longrightarrow>
   run sess (Placeholder s) val nd = Inl ValueError"
  by (induction nd) (auto simp: fed_def)

lemma source_of_output:
  "source_of (fst (snd (pixelRNN height width channel ps))) = fst (pixelRNN height width channel ps)"
  by (simp add: pixelRNN_def Let_def source_of_main_convs source_of_out_convs)

lemma inputs_placeholder:
  "fst (pixelRNN height width channel ps) = Placeholder (input_shape height width channel ps)"
  by (simp add: pixelRNN_def Let_def)

text \<open>
  C10. The placeholder \<open>pixelRNN\<close> creates has shape \<open>(None, height, width, channel)\<close> when
  \<open>use_gpu\<close> is true and \<open>(None, channel, height, width)\<close> when it is false. The generation
  loops index axis 1 of the canvas by the row and axis 2 by the column: whenever a loop
  iteration succeeds on a canvas with \<open>height\<close> rows on axis 1, \<open>width\<close> columns on axis 2 and
  \<open>channel\<close> channels on axis 3, the placeholder has the shape of the \<open>use_gpu = True\<close>
  layout, and so it does whenever \<open>generate\<close> returns on a non-empty canvas. With
  \<open>use_gpu\<close> false, \<open>generate\<close> on a non-empty canvas raises \<open>ValueError\<close> at its first
  prediction, unless height, width and channel are all 1, where the two layouts have the
  same shape.
\<close>

theorem generation_needs_use_gpu_layout:
  "(case pixelRNN height width channel ps of (inputs, output, conv2d_out_logits) \<Rightarrow>
      static_shape inputs =
        (if use_gpu ps then (None, Some height, Some width, Some channel)
         else (None, Some channel, Some height, Some width)) \<and>
      (\<forall>samples i j st'.
         n_rows samples = height \<and> n_cols samples = width \<and> n_chan samples = channel \<and>
         pixel_step binarize sess inputs output (samples, g) i j = Inr st' \<longrightarrow>
         static_shape inputs = (None, Some height, Some width, Some channel)) \<and>
      (\<forall>final. 0 < height \<and> 0 < width \<and>
         generate binarize g sess height width inputs output = Inr final \<longrightarrow>
         static_shape inputs = (None, Some height, Some width, Some 1)) \<and>
      (\<not> use_gpu ps \<and> 0 < height \<and> 0 < width \<and> \<not> (channel = 1 \<and> height = 1 \<and> width = 1) \<longrightarrow>
         generate binarize g sess height width inputs output = Inl ValueError))"
proof -
  let ?inp = "fst (pixelRNN height width channel ps)"
  let ?out = "fst (snd (pixelRNN height width channel ps))"
  let ?s = "input_shape height width channel ps"
  let ?step = "pixel_step binarize sess ?inp ?out"
  have shp: "static_shape ?inp =
        (if use_gpu ps then (None, Some height, Some width, Some channel)
         else (None, Some channel, Some height, Some width))"
    by (simp add: inputs_placeholder input_shape_def)
  have step: "static_shape ?inp = (None, Some height, Some width, Some channel)"
    if "n_rows samples = height" "n_cols samples = width" "n_chan samples = channel"
      "?step (samples, g) i j = Inr st'" for samples i j st'
  proof -
    have "feed_compatible ?s samples"
      using that(4) unfolding inputs_placeholder by (rule pixel_step_feed_ok)
    then have "?s = (None, Some (n_rows samples), Some (n_cols samples), Some (n_chan samples))"
      by (cases "use_gpu ps") (simp_all add: input_shape_def feed_compatible_def dim_ok_def)
    then have "?s = (None, Some height, Some width, Some channel)"
      by (simp only: that(1-3))
    then show ?thesis by (simp only: inputs_placeholder static_shape.simps)
  qed
  have first: "generate binarize g sess height width ?inp ?out =
      ebind (?step (np_zeros 100 height width 1, g) 0 0)
        (\<lambda>st. ebind (inner_loop ?step 0 [1..<width] st) (outer_loop ?step [1..<height] [0..<width]))"
    if "0 < height" "0 < width"
  proof -
    have hs: "[0..<height] = 0 # [1..<height]" and ws: "[0..<width] = 0 # [1..<width]"
      using that by (simp_all add: upt_conv_Cons)
    have "outer_loop ?step (0 # [1..<height]) [0..<width] (np_zeros 100 height width 1, g) =
       ebind (inner_loop ?step 0 (0 # [1..<width]) (np_zeros 100 height width 1, g))
         (outer_loop ?step [1..<height] [0..<width])"
      unfolding outer_loop.simps by (subst (1) ws) (rule refl)
    then have "outer_loop ?step [0..<height] [0..<width] (np_zeros 100 height width 1, g) =
       ebind (ebind (?step (np_zeros 100 height width 1, g) 0 0) (inner_loop ?step 0 [1..<width]))
         (outer_loop ?step [1..<height] [0..<width])"
      unfolding inner_loop.simps by (subst hs)
    then show ?thesis
      unfolding generate_def Let_def by (simp only: ebind_assoc)
  qed
  have gen: "static_shape ?inp = (None, Some height, Some width, Some 1)"
    if hpos: "0 < height" and wpos: "0 < width"
      and ok: "generate binarize g sess height width ?inp ?out = Inr final"
    for final
  proof -
    from ok obtain st where "?step (np_zeros 100 height width 1, g) 0 0 = Inr st"
      unfolding first [OF hpos wpos] by (auto simp: ebind_eq_Inr)
    then have "feed_compatible ?s (np_zeros 100 height width 1)"
      unfolding inputs_placeholder by (rule pixel_step_feed_ok)
    then have "?s = (None, Some height, Some width, Some 1)"
      by (cases "use_gpu ps")
        (simp_all add: input_shape_def feed_compatible_def dim_ok_def np_zeros_def)
    then show ?thesis by (simp only: inputs_placeholder static_shape.simps)
  qed
  have bad: "generate binarize g sess height width ?inp ?out = Inl ValueError"
    if "\<not> use_gpu ps" "0 < height" "0 < width" "\<not> (channel = 1 \<and> height = 1 \<and> width = 1)"
  proof -
    have "\<not> feed_compatible ?s (np_zeros 100 height width 1)"
      using that(1,4) by (auto simp: input_shape_def feed_compatible_def dim_ok_def np_zeros_def)
    then have "predict sess (np_zeros 100 height width 1) ?inp ?out = Inl ValueError"
      unfolding predict_def inputs_placeholder
      using source_of_output [of height width channel ps, unfolded inputs_placeholder]
      by (intro run_feed_bad)
    then have "?step (np_zeros 100 height width 1, g) 0 0 = Inl ValueError"
      by (simp add: pixel_step_def)
    then show ?thesis by (simp add: first [OF that(2,3)])
  qed
  show ?thesis
    unfolding split_beta
  proof (intro conjI allI impI)
    show "static_shape ?inp =
        (if use_gpu ps then (None, Some height, Some width, Some channel)
         else (None, Some channel, Some height, Some width))"
      by (rule shp)
  next
    fix samples i j st'
    assume "n_rows samples = height \<and> n_cols samples = width \<and> n_chan samples = channel \<and>
         ?step (samples, g) i j = Inr st'"
    then show "static_shape ?inp = (None, Some height, Some width, Some channel)"
      using step by blast
  next
    fix final
    assume "0 < height \<and> 0 < width \<and>
         generate binarize g sess height width ?inp ?out = Inr final"
    then show "static_shape ?inp = (None, Some height, Some width, Some 1)"
      using gen by blast
  next
    assume "\<not> use_gpu ps \<and> 0 < height \<and> 0 < width \<and>
        \<not> (channel = 1 \<and> height = 1 \<and> width = 1)"
    then show "generate binarize g sess height width ?inp ?out = Inl ValueError"
      using bad by blast
  qed
qed

text \<open>
  The theorem at the notebook's dimensions with \<open>use_gpu\<close> true and false, and at a 3\<times>3
  canvas on which \<open>generate\<close> returns.
\<close>

theorem generation_needs_use_gpu_layout_witness:
  "static_shape (fst (pixelRNN 28 28 1 p)) = (None, Some 28, Some 28, Some 1) \<and>
   static_shape (fst (pixelRNN 28 28 1 (p\<lparr>use_gpu := False\<rparr>))) =
     (None, Some 1, Some 28, Some 28) \<and>
   generate binarize_threshold () (bias_session (ln 9)) 28 28
     (fst (pixelRNN 28 28 1 (p\<lparr>use_gpu := False\<rparr>)))
     (fst (snd (pixelRNN 28 28 1 (p\<lparr>use_gpu := False\<rparr>)))) = Inl ValueError \<and>
   (\<exists>final. generate binarize_threshold () (bias_session (ln 9)) 3 3
     (fst (pixelRNN 3 3 1 p)) (fst (snd (pixelRNN 3 3 1 p))) = Inr final \<and>
     static_shape (fst (pixelRNN 3 3 1 p)) = (None, Some 3, Some 3, Some 1))"
proof -
  note on = generation_needs_use_gpu_layout [where height = 28 and width = 28 and channel = 1
      and ps = p and binarize = binarize_threshold and g = "()" and sess = "bias_session (ln 9)",
      unfolded split_beta]
  note off = generation_needs_use_gpu_layout [where height = 28 and width = 28 and channel = 1
      and ps = "p\<lparr>use_gpu := False\<rparr>" and binarize = binarize_threshold and g = "()"
      and sess = "bias_session (ln 9)", unfolded split_beta]
  note small = generation_needs_use_gpu_layout [where height = 3 and width = 3 and channel = 1
      and ps = p and binarize = binarize_threshold and g = "()" and sess = "bias_session (ln 9)",
      unfolded split_beta]
  have a: "static_shape (fst (pixelRNN 28 28 1 p)) = (None, Some 28, Some 28, Some 1)"
    using on by (simp add: p_def)
  have b: "static_shape (fst (pixelRNN 28 28 1 (p\<lparr>use_gpu := False\<rparr>))) =
     (None, Some 1, Some 28, Some 28)"
    using off by simp
  have c: "generate binarize_threshold () (bias_session (ln 9)) 28 28
     (fst (pixelRNN 28 28 1 (p\<lparr>use_gpu := False\<rparr>)))
     (fst (snd (pixelRNN 28 28 1 (p\<lparr>use_gpu := False\<rparr>)))) = Inl ValueError"
    using off by simp
  have rows: "set [0..<3] \<subseteq> {..<3::nat}" by auto
  from constant_loop [OF bias_model_09 [of 3 3] same_shape_refl rows, of 100 "()"]
  obtain final where
    gen: "generate binarize_threshold () (bias_session (ln 9)) 3 3
      (fst (pixelRNN 3 3 1 p)) (fst (snd (pixelRNN 3 3 1 p))) = Inr (final, ())"
    unfolding generate_def Let_def by blast
  have d: "static_shape (fst (pixelRNN 3 3 1 p)) = (None, Some 3, Some 3, Some 1)"
    using small gen by simp
  from a b c d gen show ?thesis by blast
qed

section \<open>Causality of the model\<close>

lemma sum_list_cong:
  "(\<And>a. a \<in> set xs \<Longrightarrow> f a = h a) \<Longrightarrow> (\<Sum>a\<leftarrow>xs. f a) = (\<Sum>a\<leftarrow>xs. h a)"
  by (rule arg_cong [where f = sum_list]) (rule map_cong, simp_all)

lemma masked_A_term:
  assumes ab: "agree_before x y i j" and b: "b < n_batch x" and c: "c < n_chan x"
    and odd: "pad_before kh = center kh" "pad_before kw = center kw"
  shows "get_mask A kh kw a b' * padded x b (int i + int a - int (pad_before kh))
                         (int j + int b' - int (pad_before kw)) c =
         get_mask A kh kw a b' * padded y b (int i + int a - int (pad_before kh))
                         (int j + int b' - int (pad_before kw)) c"
proof (cases "get_mask A kh kw a b' = 0")
  case True
  then show ?thesis by simp
next
  case False
  then have pos: "a < center kh \<or> (a = center kh \<and> b' < center kw)"
    by (auto simp: get_mask_def split: if_splits)
  let ?r = "int i + int a - int (pad_before kh)" and ?c = "int j + int b' - int (pad_before kw)"
  have shape: "n_rows y = n_rows x" "n_cols y = n_cols x"
    using ab by (simp_all add: agree_before_def same_shape_def)
  show ?thesis
  proof (cases "0 \<le> ?r \<and> ?r < int (n_rows x) \<and> 0 \<le> ?c \<and> ?c < int (n_cols x)")
    case True
    have "before (nat ?r, nat ?c) (i, j)"
      using pos True odd by (auto simp: before_def)
    moreover have "nat ?r < n_rows x" "nat ?c < n_cols x" using True by auto
    ultimately have "dat x b (nat ?r) (nat ?c) c = dat y b (nat ?r) (nat ?c) c"
      using ab b c unfolding agree_before_def by blast
    then show ?thesis using True shape by (simp add: padded_def)
  next
    case False
    then show ?thesis using shape by (auto simp: padded_def)
  qed
qed

lemma conv_A_agree:
  assumes ab: "agree_before x y i j" and b: "b < n_batch x"
    and odd: "pad_before kh = center kh" "pad_before kw = center kw"
  shows "agree_at (conv2d_apply v n (kh, kw) A x) (conv2d_apply v n (kh, kw) A y) b i j"
proof -
  have shape: "same_shape x y" using ab by (simp add: agree_before_def)
  then have ch: "n_chan y = n_chan x" by (simp add: same_shape_def)
  have "dat (conv2d_apply v n (kh, kw) A x) b i j out =
        dat (conv2d_apply v n (kh, kw) A y) b i j out" for out
    unfolding conv2d_apply_def prod.case tensor.simps ch
    by (intro arg_cong2 [where f = "(+)"] refl sum_list_cong)
       (simp only: mult.assoc masked_A_term [OF ab b _ odd] atLeastLessThan_iff set_upt)
  then show ?thesis
    using shape by (simp add: agree_at_def same_shape_def conv2d_apply_def)
qed

lemma conv_1x1_agree:
  assumes "agree_at x y b i j"
  shows "agree_at (conv2d_apply v n (1, 1) B x) (conv2d_apply v n (1, 1) B y) b i j"
proof -
  from assms have shape: "same_shape x y"
    and eq: "\<And>ch. dat x b i j ch = dat y b i j ch"
    by (simp_all add: agree_at_def)
  have dims: "n_chan y = n_chan x" "n_rows y = n_rows x" "n_cols y = n_cols x"
    using shape by (simp_all add: same_shape_def)
  have "padded x b (int i) (int j) c = padded y b (int i) (int j) c" for c
    using eq [of c] by (simp add: padded_def dims)
  then have "dat (conv2d_apply v n (1, 1) B x) b i j out =
        dat (conv2d_apply v n (1, 1) B y) b i j out" for out
    unfolding conv2d_apply_def prod.case tensor.simps dims
    by (intro arg_cong2 [where f = "(+)"] refl sum_list_cong)
       (simp add: pad_before_def)
  then show ?thesis
    using shape by (simp add: agree_at_def same_shape_def conv2d_apply_def)
qed

lemma tmap_agree: "agree_at x y b i j \<Longrightarrow> agree_at (tmap f x) (tmap f y) b i j"
  by (simp add: agree_at_def tmap_def same_shape_def)

lemma runs_agree_bind:
  assumes "runs_agree_at rx ry b i j"
    and "\<And>tx ty. agree_at tx ty b i j \<Longrightarrow> agree_at (f tx) (f ty) b i j"
  shows "runs_agree_at (ebind rx (\<lambda>v. Inr (f v))) (ebind ry (\<lambda>v. Inr (f v))) b i j"
  using assms by (cases rx; cases ry) (simp_all add: runs_agree_at_def)

lemma conv_layer_agree:
  assumes "runs_agree_at (run sess (Placeholder s) x nd) (run sess (Placeholder s) y nd) b i j"
  shows "runs_agree_at (run sess (Placeholder s) x (Conv2d nd n (1, 1) B scope))
           (run sess (Placeholder s) y (Conv2d nd n (1, 1) B scope)) b i j"
proof -
  have eq: "run sess (Placeholder s) v (Conv2d nd n (1, 1) B scope) =
      ebind (run sess (Placeholder s) v nd) (\<lambda>v. Inr (conv2d_apply (sess scope) n (1, 1) B v))"
    for v by simp
  show ?thesis
    unfolding eq by (rule runs_agree_bind [OF assms]) (rule conv_1x1_agree)
qed

lemma relu_layer_agree:
  assumes "runs_agree_at (run sess (Placeholder s) x nd) (run sess (Placeholder s) y nd) b i j"
  shows "runs_agree_at (run sess (Placeholder s) x (Relu nd))
           (run sess (Placeholder s) y (Relu nd)) b i j"
proof -
  have eq: "run sess (Placeholder s) v (Relu nd) =
      ebind (run sess (Placeholder s) v nd) (\<lambda>v. Inr (tmap relu v))" for v
    by simp
  show ?thesis
    unfolding eq by (rule runs_agree_bind [OF assms]) (rule tmap_agree)
qed

lemma sigmoid_layer_agree:
  assumes "runs_agree_at (run sess (Placeholder s) x nd) (run sess (Placeholder s) y nd) b i j"
  shows "runs_agree_at (run sess (Placeholder s) x (Sigmoid nd))
           (run sess (Placeholder s) y (Sigmoid nd)) b i j"
proof -
  have eq: "run sess (Placeholder s) v (Sigmoid nd) =
      ebind (run sess (Placeholder s) v nd) (\<lambda>v. Inr (tmap sigmoid v))" for v
    by simp
  show ?thesis
    unfolding eq by (rule runs_agree_bind [OF assms]) (rule tmap_agree)
qed

lemma main_convs_agree:
  assumes "runs_agree_at (run sess (Placeholder s) x nd) (run sess (Placeholder s) y nd) b i j"
  shows "runs_agree_at (run sess (Placeholder s) x (main_convs idxs nd))
           (run sess (Placeholder s) y (main_convs idxs nd)) b i j"
  using assms
proof (induction idxs arbitrary: nd)
  case Nil
  then show ?case by simp
next
  case (Cons idx idxs)
  show ?case
    unfolding main_convs.simps
    by (rule Cons.IH) (rule conv_layer_agree [OF Cons.prems])
qed

lemma out_convs_agree:
  assumes "runs_agree_at (run sess (Placeholder s) x nd) (run sess (Placeholder s) y nd) b i j"
  shows "runs_agree_at (run sess (Placeholder s) x (out_convs ps idxs nd))
           (run sess (Placeholder s) y (out_convs ps idxs nd)) b i j"
  using assms
proof (induction idxs arbitrary: nd)
  case Nil
  then show ?case by simp
next
  case (Cons idx idxs)
  show ?case
    unfolding out_convs.simps
    by (rule Cons.IH) (rule relu_layer_agree, rule conv_layer_agree [OF Cons.prems])
qed

lemma first_conv_agree:
  assumes ab: "agree_before x y i j" and b: "b < n_batch x"
  shows "runs_agree_at (run sess (Placeholder s) x (Conv2d (Placeholder s) n (7, 7) A scope))
           (run sess (Placeholder s) y (Conv2d (Placeholder s) n (7, 7) A scope)) b i j"
proof -
  have "same_shape x y" using ab by (simp add: agree_before_def)
  then have fc: "feed_compatible s y = feed_compatible s x"
    by (simp add: feed_compatible_def same_shape_def split: prod.splits)
  have "pad_before 7 = center 7" by (simp add: pad_before_def center_def)
  from conv_A_agree [OF ab b this this]
  show ?thesis
    by (simp add: fed_def fc runs_agree_at_def)
qed

text \<open>
  C1. For every pixel \<open>(i, j)\<close> and batch element \<open>b\<close>: on two canvases that agree at all
  positions strictly before \<open>(i, j)\<close> in raster order, the model built by \<open>pixelRNN\<close> gives
  the same probability at \<open>(i, j)\<close> (or both predictions raise the same exception), for
  every session and all hyperparameters. So a prediction at \<open>(i, j)\<close> does not depend on
  the pixels at or after \<open>(i, j)\<close>, which generation has not finalized yet.
\<close>

theorem pixelRNN_depends_on_earlier_pixels:
  assumes "agree_before x y i j" and "b < n_batch x"
  shows "(case pixelRNN height width channel ps of (inputs, output, conv2d_out_logits) \<Rightarrow>
            prediction_at (predict sess x inputs output) b i j =
            prediction_at (predict sess y inputs output) b i j)"
proof -
  let ?ph = "Placeholder (input_shape height width channel ps)"
  let ?first = "Conv2d ?ph (hidden_dims ps) (7, 7) A ''conv_inputs''"
  let ?hid = "out_convs ps [0..<out_recurrent_length ps] (main_convs [0..<recurrent_length ps] ?first)"
  let ?logits = "Conv2d ?hid 1 (1, 1) B ''conv2d_out_logits''"
  have "runs_agree_at (run sess ?ph x ?hid) (run sess ?ph y ?hid) b i j"
    by (intro out_convs_agree main_convs_agree first_conv_agree assms)
  then have "runs_agree_at (run sess ?ph x ?logits) (run sess ?ph y ?logits) b i j"
    by (rule conv_layer_agree)
  then have "runs_agree_at (run sess ?ph x (Sigmoid ?logits)) (run sess ?ph y (Sigmoid ?logits)) b i j"
    by (rule sigmoid_layer_agree)
  then have "prediction_at (run sess ?ph x (Sigmoid ?logits)) b i j =
             prediction_at (run sess ?ph y (Sigmoid ?logits)) b i j"
    by (auto simp: runs_agree_at_def prediction_at_def agree_at_def same_shape_def
        split: sum.splits)
  then show ?thesis
    by (simp add: pixelRNN_def Let_def predict_def)
qed

text \<open>
  The theorem for the notebook's graph on 3\<times>3 canvases at pixel \<open>(1, 1)\<close>: the all-zero
  canvas and the canvas that is 1 from \<open>(1, 1)\<close> on get the same probability there.
\<close>

theorem pixelRNN_depends_on_earlier_pixels_witness:
  "agree_before (np_zeros 2 3 3 1) (later_ones 2 3 3 1 1) 1 1 \<and>
   prediction_at (predict unit_session (np_zeros 2 3 3 1)
       (fst (pixelRNN 3 3 1 p)) (fst (snd (pixelRNN 3 3 1 p)))) 0 1 1 =
   prediction_at (predict unit_session (later_ones 2 3 3 1 1)
       (fst (pixelRNN 3 3 1 p)) (fst (snd (pixelRNN 3 3 1 p)))) 0 1 1 \<and>
   (\<exists>t. predict unit_session (later_ones 2 3 3 1 1)
       (fst (pixelRNN 3 3 1 p)) (fst (snd (pixelRNN 3 3 1 p))) = Inr t)"
proof -
  have ab: "agree_before (np_zeros 2 3 3 1) (later_ones 2 3 3 1 1) 1 1"
    by (simp add: agree_before_def same_shape_def np_zeros_def later_ones_def)
  have b: "0 < n_batch (np_zeros 2 3 3 1)" by (simp add: np_zeros_def)
  note inst = pixelRNN_depends_on_earlier_pixels [where height = 3 and width = 3
      and channel = 1 and ps = p and sess = unit_session, OF ab b, unfolded split_beta]
  have "\<exists>t. predict unit_session (later_ones 2 3 3 1 1)
       (fst (pixelRNN 3 3 1 p)) (fst (snd (pixelRNN 3 3 1 p))) = Inr t"
    by (simp add: pixelRNN_def p_def Let_def input_shape_def predict_def fed_def
      feed_compatible_def dim_ok_def later_ones_def eval_nat_numeral)
  with ab inst show ?thesis by blast
qed

section \<open>The loss and the clipped gradients\<close>

lemma sigmoid_cross_entropy_eq:
  "sigmoid_cross_entropy_with_logits x z = binary_cross_entropy x z"
proof -
  let ?L = "ln (1 + exp (- x))"
  have pos: "0 < 1 + exp (- x)" by (simp add: add_pos_pos)
  have s: "sigmoid x = 1 / (1 + exp (- x))" by (simp add: sigmoid_def)
  have ln_s: "ln (sigmoid x) = - ?L"
    unfolding s using pos by (simp add: ln_div)
  have "1 - sigmoid x = exp (- x) / (1 + exp (- x))"
    unfolding s using pos by (simp add: field_simps)
  then have ln_1s: "ln (1 - sigmoid x) = - x - ?L"
    using pos by (simp add: ln_div)
  have bce: "binary_cross_entropy x z = ?L + x - x * z"
    unfolding binary_cross_entropy_def ln_s ln_1s by (simp add: algebra_simps)
  show ?thesis
  proof (cases "0 \<le> x")
    case True
    then show ?thesis
      unfolding bce by (simp add: sigmoid_cross_entropy_with_logits_def)
  next
    case False
    have "(1 + exp x) / exp x = 1 / exp x + 1"
      by (simp add: add_divide_distrib)
    then have "1 + exp (- x) = (1 + exp x) / exp x"
      by (simp add: exp_minus inverse_eq_divide)
    moreover have "0 < 1 + exp x" by (simp add: add_pos_pos)
    then have "ln ((1 + exp x) / exp x) = ln (1 + exp x) - ln (exp x)"
      by (intro ln_divide_pos) simp_all
    ultimately have "?L = ln (1 + exp x) - x"
      by simp
    with False show ?thesis
      unfolding bce by (simp add: sigmoid_cross_entropy_with_logits_def)
  qed
qed

lemma loss_of_mean:
  "loss_of logits labels =
     (if same_shape logits labels then Inr (mean_binary_cross_entropy logits labels)
      else Inl ValueError)"
  by (simp add: loss_of_def reduce_mean_def tensor_sum_def mean_binary_cross_entropy_def
      sigmoid_cross_entropy_eq)

lemma bce_0_1: "binary_cross_entropy 0 1 = ln 2"
  by (simp add: binary_cross_entropy_def sigmoid_def ln_div)

text \<open>
  C8. The loss of the notebook's graph on a batch of images is the mean, over all batch
  elements, pixels and channels, of the binary cross-entropy between the logits and the
  images (a \<open>ValueError\<close> if their shapes differ). The training operation applies the
  gradients after clipping: what the optimizer applies is the list in which every
  gradient is replaced by its elementwise clipping \<open>max(min(v, grad_clip), -grad_clip)\<close>,
  paired with the same variable, and for a non-negative \<open>grad_clip\<close> every applied value
  lies between \<open>-grad_clip\<close> and \<open>grad_clip\<close>.
\<close>

theorem loss_is_mean_cross_entropy_and_gradients_are_clipped:
  "(case pixelRNN height width channel ps of (inputs, output, conv2d_out_logits) \<Rightarrow>
      run_loss sess inputs conv2d_out_logits imgs =
        ebind (predict sess imgs inputs conv2d_out_logits) (\<lambda>logits.
          if same_shape logits imgs then Inr (mean_binary_cross_entropy logits imgs)
          else Inl ValueError)) \<and>
   optim apply_gradients ps grads_and_vars =
     apply_gradients (new_grads_and_vars ps grads_and_vars) \<and>
   map snd (new_grads_and_vars ps grads_and_vars) = map snd grads_and_vars \<and>
   map fst (new_grads_and_vars ps grads_and_vars) =
     map (\<lambda>gv. map (\<lambda>v. max (min v (grad_clip ps)) (- grad_clip ps)) (fst gv)) grads_and_vars \<and>
   (0 \<le> grad_clip ps \<longrightarrow>
      (\<forall>gv\<in>set (new_grads_and_vars ps grads_and_vars). \<forall>v\<in>set (fst gv).
         - grad_clip ps \<le> v \<and> v \<le> grad_clip ps))"
proof (intro conjI)
  let ?ph = "Placeholder (input_shape height width channel ps)"
  let ?first = "Conv2d ?ph (hidden_dims ps) (7, 7) A ''conv_inputs''"
  let ?hid = "out_convs ps [0..<out_recurrent_length ps] (main_convs [0..<recurrent_length ps] ?first)"
  let ?logits = "Conv2d ?hid 1 (1, 1) B ''conv2d_out_logits''"
  let ?f = "\<lambda>logits labels. if same_shape logits labels
          then Inr (mean_binary_cross_entropy logits labels) else Inl ValueError"
  have pr: "pixelRNN height width channel ps = (?ph, Sigmoid ?logits, ?logits)"
    by (simp add: pixelRNN_def Let_def)
  have key: "ebind (run sess ?ph imgs ?logits) (\<lambda>logits. ebind (run sess ?ph imgs ?ph) (?f logits)) =
        ebind (run sess ?ph imgs ?logits) (\<lambda>logits. ?f logits imgs)"
  proof (cases "run sess ?ph imgs ?logits")
    case (Inl e)
    then show ?thesis by (simp only: ebind_Inl)
  next
    case (Inr t)
    then have "feed_compatible (input_shape height width channel ps) imgs"
      by (rule run_feed_ok)
    then have "run sess ?ph imgs ?ph = Inr imgs" by (simp add: fed_def)
    then show ?thesis by (simp only: Inr ebind_Inr)
  qed
  show "case pixelRNN height width channel ps of (inputs, output, conv2d_out_logits) \<Rightarrow>
      run_loss sess inputs conv2d_out_logits imgs =
        ebind (predict sess imgs inputs conv2d_out_logits) (\<lambda>logits.
          if same_shape logits imgs then Inr (mean_binary_cross_entropy logits imgs)
          else Inl ValueError)"
    unfolding pr prod.case run_loss_def predict_def loss_of_mean by (rule key)
  show "optim apply_gradients ps grads_and_vars =
     apply_gradients (new_grads_and_vars ps grads_and_vars)"
    by (simp add: optim_def)
  show "map snd (new_grads_and_vars ps grads_and_vars) = map snd grads_and_vars"
    by (simp add: new_grads_and_vars_def comp_def)
  show "map fst (new_grads_and_vars ps grads_and_vars) =
     map (\<lambda>gv. map (\<lambda>v. max (min v (grad_clip ps)) (- grad_clip ps)) (fst gv)) grads_and_vars"
    by (simp add: new_grads_and_vars_def comp_def clip_by_value_def)
  show "0 \<le> grad_clip ps \<longrightarrow>
      (\<forall>gv\<in>set (new_grads_and_vars ps grads_and_vars). \<forall>v\<in>set (fst gv).
         - grad_clip ps \<le> v \<and> v \<le> grad_clip ps)"
    by (auto simp: new_grads_and_vars_def clip_by_value_def)
qed

text \<open>
  The theorem for the notebook's graph and hyperparameters: logits 0 against images of
  ones give the loss \<open>ln 2\<close>, and the gradient \<open>[3, -5, 0.5]\<close> is applied as \<open>[1, -1, 0.5]\<close>.
\<close>

theorem loss_is_mean_cross_entropy_and_gradients_are_clipped_witness:
  "run_loss (bias_session 0) (fst (pixelRNN 3 3 1 p)) (snd (snd (pixelRNN 3 3 1 p)))
     (np_ones 2 3 3 1) = Inr (ln 2) \<and>
   0 \<le> grad_clip p \<and>
   new_grads_and_vars p [([3, - 5, 1 / 2], ''conv_inputs/weights'')] =
     [([1, - 1, 1 / 2], ''conv_inputs/weights'')] \<and>
   list_all (\<lambda>v. - 1 \<le> v \<and> v \<le> 1)
     (concat (map fst (new_grads_and_vars p [([3, - 5, 1 / 2], ''conv_inputs/weights'')])))"
proof -
  note inst = loss_is_mean_cross_entropy_and_gradients_are_clipped
    [where height = 3 and width = 3 and channel = 1 and ps = p and sess = "bias_session 0"
      and imgs = "np_ones 2 3 3 1"
      and grads_and_vars = "[([3, - 5, 1 / 2], ''conv_inputs/weights'')]"
      and apply_gradients = id, unfolded split_beta]
  have logits: "predict (bias_session 0) (np_ones 2 3 3 1) (fst (pixelRNN 3 3 1 p))
      (snd (snd (pixelRNN 3 3 1 p))) = Inr (np_zeros 2 3 3 1)"
    by (simp add: pixelRNN_def p_def Let_def input_shape_def predict_def fed_def
      feed_compatible_def dim_ok_def conv2d_apply_def tmap_def bias_session_def relu_def
      np_ones_def np_zeros_def eval_nat_numeral)
  have mean: "mean_binary_cross_entropy (np_zeros 2 3 3 1) (np_ones 2 3 3 1) = ln 2"
    by (simp add: mean_binary_cross_entropy_def np_zeros_def np_ones_def bce_0_1
        eval_nat_numeral)
  have a: "run_loss (bias_session 0) (fst (pixelRNN 3 3 1 p)) (snd (snd (pixelRNN 3 3 1 p)))
     (np_ones 2 3 3 1) = Inr (ln 2)"
  proof -
    have ss: "same_shape (np_zeros 2 3 3 1) (np_ones 2 3 3 1)"
      by (simp add: same_shape_def np_zeros_def np_ones_def)
    from inst have "run_loss (bias_session 0) (fst (pixelRNN 3 3 1 p))
        (snd (snd (pixelRNN 3 3 1 p))) (np_ones 2 3 3 1) =
      ebind (predict (bias_session 0) (np_ones 2 3 3 1) (fst (pixelRNN 3 3 1 p))
          (snd (snd (pixelRNN 3 3 1 p))))
        (\<lambda>logits. if same_shape logits (np_ones 2 3 3 1)
           then Inr (mean_binary_cross_entropy logits (np_ones 2 3 3 1))
           else Inl ValueError)"
      by (rule conjunct1)
    then show ?thesis
      by (simp only: logits ebind_Inr ss if_True mean)
  qed
  have gc: "grad_clip p = 1" by (simp add: p_def)
  have c: "new_grads_and_vars p [([3, - 5, 1 / 2], ''conv_inputs/weights'')] =
     [([1, - 1, 1 / 2], ''conv_inputs/weights'')]"
    by (simp add: new_grads_and_vars_def clip_by_value_def gc)
  have "\<forall>gv\<in>set (new_grads_and_vars p [([3, - 5, 1 / 2], ''conv_inputs/weights'')]).
      \<forall>v\<in>set (fst gv). - 1 \<le> v \<and> v \<le> 1"
    using inst unfolding gc by simp
  then have d: "list_all (\<lambda>v. - 1 \<le> v \<and> v \<le> 1)
     (concat (map fst (new_grads_and_vars p [([3, - 5, 1 / 2], ''conv_inputs/weights'')])))"
    by (auto simp: list_all_iff)
  have e: "0 \<le> grad_clip p" by (simp add: gc)
  from a e c d show ?thesis by (intro conjI)
qed

end
